theory Spec2Isabelle
  imports Complex_Main
begin

section \<open>Double-precision values\<close>

text \<open>
  The optimizer computes with C++ \<open>double\<close>. The model keeps the special values of
  IEEE arithmetic apart from the finite ones: a value is a finite real number, one of the two
  infinities, or not-a-number. Comparisons with NaN are false and the special values
  propagate as in IEEE 754. On finite values the operations are the exact real ones:
  rounding, overflow to infinity and the sign of zero are not part of the model.
\<close>

datatype double = Fin real | PInf | NInf | NaN

fun dneg :: "double \<Rightarrow> double" where
  "dneg (Fin a) = Fin (- a)"
| "dneg PInf = NInf"
| "dneg NInf = PInf"
| "dneg NaN = NaN"

fun dadd :: "double \<Rightarrow> double \<Rightarrow> double" where
  "dadd NaN _ = NaN"
| "dadd _ NaN = NaN"
| "dadd (Fin a) (Fin b) = Fin (a + b)"
| "dadd PInf NInf = NaN"
| "dadd NInf PInf = NaN"
| "dadd PInf _ = PInf"
| "dadd NInf _ = NInf"
| "dadd _ PInf = PInf"
| "dadd _ NInf = NInf"

definition dsub :: "double \<Rightarrow> double \<Rightarrow> double" where
  "dsub a b = dadd a (dneg b)"

fun dsgn :: "double \<Rightarrow> int" where
  "dsgn (Fin a) = (if 0 < a then 1 else if a < 0 then - 1 else 0)"
| "dsgn PInf = 1"
| "dsgn NInf = - 1"
| "dsgn NaN = 0"

fun dmul :: "double \<Rightarrow> double \<Rightarrow> double" where
  "dmul NaN _ = NaN"
| "dmul _ NaN = NaN"
| "dmul (Fin a) (Fin b) = Fin (a * b)"
| "dmul a b = (if dsgn a * dsgn b = 0 then NaN else if 0 < dsgn a * dsgn b then PInf else NInf)"

fun ddiv :: "double \<Rightarrow> double \<Rightarrow> double" where
  "ddiv NaN _ = NaN"
| "ddiv _ NaN = NaN"
| "ddiv (Fin a) (Fin b) =
     (if b = 0 then (if a = 0 then NaN else if 0 < a then PInf else NInf) else Fin (a / b))"
| "ddiv (Fin a) _ = Fin 0"
| "ddiv PInf (Fin b) = (if b < 0 then NInf else PInf)"
| "ddiv NInf (Fin b) = (if b < 0 then PInf else NInf)"
| "ddiv _ _ = NaN"

fun dlt :: "double \<Rightarrow> double \<Rightarrow> bool" where
  "dlt NaN _ = False"
| "dlt _ NaN = False"
| "dlt (Fin a) (Fin b) = (a < b)"
| "dlt _ NInf = False"
| "dlt NInf _ = True"
| "dlt PInf _ = False"
| "dlt _ PInf = True"

fun dle :: "double \<Rightarrow> double \<Rightarrow> bool" where
  "dle NaN _ = False"
| "dle _ NaN = False"
| "dle (Fin a) (Fin b) = (a \<le> b)"
| "dle NInf _ = True"
| "dle _ PInf = True"
| "dle _ _ = False"

definition dgt :: "double \<Rightarrow> double \<Rightarrow> bool" where
  "dgt a b = dlt b a"

definition dge :: "double \<Rightarrow> double \<Rightarrow> bool" where
  "dge a b = dle b a"

fun isnan :: "double \<Rightarrow> bool" where
  "isnan NaN = True"
| "isnan _ = False"

fun dabs :: "double \<Rightarrow> double" where
  "dabs (Fin a) = Fin \<bar>a\<bar>"
| "dabs PInf = PInf"
| "dabs NInf = PInf"
| "dabs NaN = NaN"

fun dsqrt :: "double \<Rightarrow> double" where
  "dsqrt (Fin a) = (if a < 0 then NaN else Fin (sqrt a))"
| "dsqrt PInf = PInf"
| "dsqrt NInf = NaN"
| "dsqrt NaN = NaN"

text \<open>\<open>std::max(a, b)\<close> is \<open>(a < b) ? b : a\<close> and \<open>std::min(a, b)\<close> is
  \<open>(b < a) ? b : a\<close>.\<close>

definition dmax :: "double \<Rightarrow> double \<Rightarrow> double" where
  "dmax a b = (if dlt a b then b else a)"

definition dmin :: "double \<Rightarrow> double \<Rightarrow> double" where
  "dmin a b = (if dlt b a then b else a)"

text \<open>\<open>std::pow(a, 3)\<close>.\<close>

definition dpow3 :: "double \<Rightarrow> double" where
  "dpow3 a = dmul a (dmul a a)"

text \<open>\<open>std::numeric_limits<double>::epsilon()\<close> and its square root (line 127).\<close>

definition epsilon :: double where
  "epsilon = Fin (1 / 2 ^ 52)"

definition sqrtEps :: double where
  "sqrtEps = dsqrt epsilon"

section \<open>Dense vectors and matrices\<close>

text \<open>
  A vector is the list of its coefficients, a matrix the list of its rows. The operations
  are those of the Eigen expressions the optimizer uses; a dimension that Eigen takes from
  the allocated buffer is an explicit argument.
\<close>

type_synonym vec = "double list"
type_synonym mat = "double list list"

definition vsum :: "vec \<Rightarrow> double" where
  "vsum u = foldr dadd u (Fin 0)"

definition dot :: "vec \<Rightarrow> vec \<Rightarrow> double" where
  "dot u w = vsum (map2 dmul u w)"

definition squaredNorm :: "vec \<Rightarrow> double" where
  "squaredNorm u = dot u u"

definition vec_norm :: "vec \<Rightarrow> double" where
  "vec_norm u = dsqrt (squaredNorm u)"

text \<open>\<open>lpNorm<Eigen::Infinity>()\<close>: zero for an empty vector, otherwise the largest
  absolute coefficient found by a scan with \<open><\<close>.\<close>

fun lpNormInf :: "vec \<Rightarrow> double" where
  "lpNormInf [] = Fin 0"
| "lpNormInf (a # u) = foldl (\<lambda>m b. if dlt m (dabs b) then dabs b else m) (dabs a) u"

definition vadd :: "vec \<Rightarrow> vec \<Rightarrow> vec" where
  "vadd u w = map2 dadd u w"

definition vsub :: "vec \<Rightarrow> vec \<Rightarrow> vec" where
  "vsub u w = map2 dsub u w"

definition vscale :: "double \<Rightarrow> vec \<Rightarrow> vec" where
  "vscale c u = map (dmul c) u"

definition vneg :: "vec \<Rightarrow> vec" where
  "vneg u = map dneg u"

definition zero_vec :: "nat \<Rightarrow> vec" where
  "zero_vec n = replicate n (Fin 0)"

definition zero_mat :: "nat \<Rightarrow> nat \<Rightarrow> mat" where
  "zero_mat r c = replicate r (replicate c (Fin 0))"

definition identity_mat :: "nat \<Rightarrow> mat" where
  "identity_mat n = map (\<lambda>i. map (\<lambda>j. if i = j then Fin 1 else Fin 0) [0..<n]) [0..<n]"

text \<open>\<open>M * u\<close> and \<open>M.adjoint() * u\<close> for a matrix with \<open>n\<close> columns.\<close>

definition mat_vec :: "mat \<Rightarrow> vec \<Rightarrow> vec" where
  "mat_vec M u = map (\<lambda>row. dot row u) M"

definition adjoint_vec :: "nat \<Rightarrow> mat \<Rightarrow> vec \<Rightarrow> vec" where
  "adjoint_vec n M u = map (\<lambda>j. vsum (map2 (\<lambda>row c. dmul (row ! j) c) M u)) [0..<n]"

text \<open>
  \<open>M.selfadjointView<Eigen::Lower>()\<close> reads the lower triangle of the stored matrix as
  a symmetric matrix: entry \<open>(i, j)\<close> is the stored \<open>(i, j)\<close> for \<open>j \<le> i\<close> and the
  stored \<open>(j, i)\<close> above the diagonal.
\<close>

definition selfadjointView :: "mat \<Rightarrow> nat \<Rightarrow> nat \<Rightarrow> double" where
  "selfadjointView M i j = (if j \<le> i then M ! i ! j else M ! j ! i)"

definition selfadjoint_vec :: "nat \<Rightarrow> mat \<Rightarrow> vec \<Rightarrow> vec" where
  "selfadjoint_vec n M u =
     map (\<lambda>i. vsum (map (\<lambda>j. dmul (selfadjointView M i j) (u ! j)) [0..<n])) [0..<n]"

text \<open>
  \<open>M.selfadjointView<Eigen::Lower>().rankUpdate(u, alpha)\<close> adds \<open>alpha * u * u\<^sup>T\<close>
  to the lower triangle (diagonal included) of the stored matrix and leaves the entries
  above the diagonal as they are. \<open>rankUpdate\<close> is the update with a vector,
  \<open>rankUpdate_adjoint\<close> the update \<open>rankUpdate(K.adjoint())\<close> with
  \<open>alpha = 1\<close>, which adds \<open>K\<^sup>T K\<close>.
\<close>

definition rankUpdate :: "nat \<Rightarrow> mat \<Rightarrow> vec \<Rightarrow> double \<Rightarrow> mat" where
  "rankUpdate n M u alpha =
     map (\<lambda>i. map (\<lambda>j. if j \<le> i then dadd (M ! i ! j) (dmul (dmul alpha (u ! j)) (u ! i))
                        else M ! i ! j) [0..<n]) [0..<n]"

definition rankUpdate_adjoint :: "nat \<Rightarrow> mat \<Rightarrow> mat \<Rightarrow> mat" where
  "rankUpdate_adjoint n M K =
     map (\<lambda>i. map (\<lambda>j. if j \<le> i
                        then dadd (M ! i ! j) (vsum (map (\<lambda>row. dmul (row ! i) (row ! j)) K))
                        else M ! i ! j) [0..<n]) [0..<n]"

text \<open>\<open>M.diagonal()\<close> and \<open>M.diagonal().array() += c\<close>.\<close>

definition diagonal :: "nat \<Rightarrow> mat \<Rightarrow> vec" where
  "diagonal n M = map (\<lambda>i. M ! i ! i) [0..<n]"

definition diagonal_add :: "nat \<Rightarrow> mat \<Rightarrow> double \<Rightarrow> mat" where
  "diagonal_add n M c =
     map (\<lambda>i. map (\<lambda>j. if i = j then dadd (M ! i ! j) c else M ! i ! j) [0..<n]) [0..<n]"

section \<open>Interface types\<close>

text \<open>
  Modelled from the spec: the enumerations \<open>MethodEnum\<close>, \<open>StateFlags\<close> and
  \<open>StepResult\<close>, the control structure and the objective's interface are declared in
  the header \<open>HybridOptimizer.h\<close>, of which only the use is at hand. The state bitmask
  is the set of the flags whose bit is set: \<open>state |= b\<close> inserts a flag,
  \<open>state &= ~b\<close> removes it. The tests \<open>if (doStep)\<close> and \<open>if (!doStep)\<close>
  (lines 167, 176, 219) single out \<open>INVALID\<close>, the only step result on which the spec
  skips the evaluation.
\<close>

datatype MethodEnum = LM | BFGS

datatype StateFlags =
    STEP_ACCEPTED | STEP_MODIFIED | STEP_INVALID
  | SUCCESS_FTOL | SUCCESS_GTOL
  | FAILURE_MINSTEP | FAILURE_MINTRUST | FAILURE_MAXITER

definition FINISHED :: "StateFlags set" where
  "FINISHED = {SUCCESS_FTOL, SUCCESS_GTOL, FAILURE_MINSTEP, FAILURE_MINTRUST, FAILURE_MAXITER}"

datatype StepResult = VALID | MODIFIED | INVALID

record HybridOptimizerControl =
  fTol :: double
  gTol :: double
  minStep :: double
  delta0 :: double
  tau :: double
  maxIter :: int
  useCholesky :: bool

text \<open>
  The objective fills the buffers it is handed: \<open>computeFunction\<close> gives the residuals
  at a point, \<open>computeDerivative\<close> the Jacobian (one row per residual), and
  \<open>tryStep\<close> returns its verdict together with the proposal, which it may have
  overwritten.
\<close>

record Objective =
  getParameterSize :: nat
  getFunctionSize :: nat
  computeFunction :: "vec \<Rightarrow> vec"
  computeDerivative :: "vec \<Rightarrow> vec \<Rightarrow> mat"
  tryStep :: "vec \<Rightarrow> vec \<Rightarrow> StepResult \<times> vec"

text \<open>
  The two factorisations come from the Eigen library and are parameters of the model:
  \<open>ldlt_solve m b\<close> stands for \<open>ldlt.compute(m); ldlt.solve(b)\<close>, and
  \<open>eigh m\<close> for \<open>eigh.compute(m)\<close>, giving the eigenvalues in ascending order and
  the matrix whose columns are the eigenvectors.
\<close>

record Eigen =
  ldlt_solve :: "mat \<Rightarrow> vec \<Rightarrow> vec"
  eigh :: "mat \<Rightarrow> vec \<times> mat"

section \<open>The optimizer state\<close>

text \<open>
  The members of \<open>HybridOptimizer::Impl\<close> (lines 61--88). The last two fields are not
  members: they count the calls made to \<open>computeFunction\<close> and
  \<open>computeDerivative\<close>, so that a statement about which calls a step makes can be
  written down.
\<close>

record Impl =
  obj :: Objective
  ctrl :: HybridOptimizerControl
  "method" :: MethodEnum
  state :: "StateFlags set"
  count :: int
  rank :: int
  x :: vec
  xNew :: vec
  f :: vec
  fNew :: vec
  J :: mat
  JNew :: mat
  h :: vec
  y :: vec
  v :: vec
  A :: mat
  B :: mat
  g :: vec
  gNew :: vec
  normInfF :: double
  normInfG :: double
  Q :: double
  QNew :: double
  mu :: double
  nu :: double
  delta :: double
  functionCalls :: nat
  derivativeCalls :: nat

text \<open>The local variables of \<open>step()\<close> that outlive one block.\<close>

record Locals =
  normH :: double
  doStep :: StepResult
  normInfGNew :: double
  isBetter :: bool
  shouldSwitchMethod :: bool

section \<open>Construction\<close>

text \<open>The constructor \<open>Impl::Impl\<close> (lines 91--124): the member initialisers, then the
  first evaluation of the objective and the damped matrix \<open>A\<close>.\<close>

definition Impl_init :: "Objective \<Rightarrow> vec \<Rightarrow> HybridOptimizerControl \<Rightarrow> Impl" where
  "Impl_init objective parameters control =
     (let n = getParameterSize objective;
          m = getFunctionSize objective;
          s0 = \<lparr>obj = objective, ctrl = control, method = LM, state = {}, count = 0,
                rank = int n, x = parameters, xNew = parameters,
                f = zero_vec m, fNew = zero_vec m, J = zero_mat m n, JNew = zero_mat m n,
                h = zero_vec n, y = zero_vec n, v = zero_vec n,
                A = zero_mat n n, B = identity_mat n, g = zero_vec n, gNew = zero_vec n,
                normInfF = Fin 0, normInfG = Fin 0, Q = Fin 0, QNew = Fin 0,
                mu = Fin 0, nu = Fin 2, delta = delta0 control,
                functionCalls = 0, derivativeCalls = 0\<rparr>;
          s1 = s0\<lparr>fNew := computeFunction (obj s0) (xNew s0),
                  functionCalls := functionCalls s0 + 1\<rparr>;
          s2 = s1\<lparr>f := fNew s1\<rparr>;
          s3 = s2\<lparr>normInfF := lpNormInf (f s2)\<rparr>;
          s4 = s3\<lparr>Q := dmul (Fin (1 / 2)) (squaredNorm (f s3))\<rparr>;
          s5 = s4\<lparr>QNew := Q s4\<rparr>;
          s6 = s5\<lparr>JNew := computeDerivative (obj s5) (xNew s5) (fNew s5),
                  derivativeCalls := derivativeCalls s5 + 1\<rparr>;
          s7 = s6\<lparr>J := JNew s6\<rparr>;
          s8 = s7\<lparr>A := rankUpdate_adjoint n (A s7) (J s7)\<rparr>;
          s9 = s8\<lparr>g := adjoint_vec n (J s8) (f s8)\<rparr>;
          s10 = s9\<lparr>normInfG := lpNormInf (g s9)\<rparr>;
          s11 = s10\<lparr>mu := dmul (tau (ctrl s10)) (lpNormInf (diagonal n (A s10)))\<rparr>
      in s11\<lparr>A := diagonal_add n (A s11) (mu s11)\<rparr>)"

section \<open>The linear solver\<close>

text \<open>The scan of line 274: \<open>for (; i < rank && eigenvalues[i] < threshold; ++i);\<close>.\<close>

function skip_small :: "vec \<Rightarrow> double \<Rightarrow> int \<Rightarrow> int \<Rightarrow> int" where
  "skip_small evals threshold rk i =
     (if i < rk \<and> dlt (evals ! nat i) threshold
      then skip_small evals threshold rk (i + 1) else i)"
  by pat_completeness auto
termination
  by (relation "measure (\<lambda>(evals, threshold, rk, i). nat (rk - i))") auto

declare skip_small.simps [simp del]

text \<open>\<open>rightCols(r)\<close> of a matrix, \<open>tail(r)\<close> of a vector, the product with
  \<open>asDiagonal()\<close>, which scales the columns, and the product \<open>X * Y.adjoint()\<close>.\<close>

definition rightCols :: "nat \<Rightarrow> mat \<Rightarrow> mat" where
  "rightCols r M = map (\<lambda>row. drop (length row - r) row) M"

definition tail :: "nat \<Rightarrow> vec \<Rightarrow> vec" where
  "tail r u = drop (length u - r) u"

definition mul_diagonal :: "mat \<Rightarrow> vec \<Rightarrow> mat" where
  "mul_diagonal M d = map (\<lambda>row. map2 dmul row d) M"

definition mul_adjoint :: "mat \<Rightarrow> mat \<Rightarrow> mat" where
  "mul_adjoint X Y = map (\<lambda>r. map (\<lambda>c. dot r c) Y) X"

text \<open>
  \<open>Impl::solve\<close> (lines 265--280). The result is \<open>None\<close> when line 272 reads
  \<open>eigenvalues()[rank-1]\<close> outside the vector of eigenvalues, as it does for a problem
  without parameters.
\<close>

definition solve :: "Eigen \<Rightarrow> mat \<Rightarrow> Impl \<Rightarrow> Impl option" where
  "solve lib m s =
     (if useCholesky (ctrl s) then Some (s\<lparr>h := ldlt_solve lib m (vneg (g s))\<rparr>)
      else
        let s1 = s\<lparr>rank := int (getParameterSize (obj s))\<rparr>;
            (evals, evecs) = eigh lib m
        in if rank s1 - 1 < 0 \<or> int (length evals) \<le> rank s1 - 1 then None
           else
             let threshold = dmul (evals ! nat (rank s1 - 1)) epsilon;
                 i = skip_small evals threshold (rank s1) 0;
                 s2 = s1\<lparr>rank := rank s1 - i\<rparr>;
                 r = nat (rank s2);
                 d = map (ddiv (Fin 1)) (tail r evals)
             in Some (s2\<lparr>h := mat_vec (mul_adjoint (mul_diagonal (rightCols r evecs) d)
                                                    (rightCols r evecs))
                                       (vneg (g s2))\<rparr>))"

section \<open>One step\<close>

text \<open>\<open>Impl::checkStep\<close> (lines 53--59); the returned flag is the function's result and
  \<open>stepFloor\<close> the right-hand side of the comparison of line 54.\<close>

definition stepFloor :: "Impl \<Rightarrow> double" where
  "stepFloor s = dmul (minStep (ctrl s)) (dadd (vec_norm (x s)) (minStep (ctrl s)))"

definition checkStep :: "double \<Rightarrow> StateFlags \<Rightarrow> Impl \<Rightarrow> bool \<times> Impl" where
  "checkStep stepNorm bad s =
     (if \<not> dgt stepNorm (stepFloor s)
      then (False, s\<lparr>state := insert bad (state s)\<rparr>)
      else (True, s))"

text \<open>
  \<open>Impl::step\<close> is cut into blocks. A block that can end the step by a \<open>return\<close>
  gives \<open>Inl\<close> of the state the step returns with, and otherwise \<open>Inr\<close> of what the
  next block goes on with.

  Lines 148--166: the verdict of \<open>tryStep\<close>.
\<close>

definition step_vet :: "StepResult \<Rightarrow> double \<Rightarrow> Impl \<Rightarrow> Impl + double \<times> Impl" where
  "step_vet r nH s =
     (if r = MODIFIED then
        (let s1 = s\<lparr>state := insert STEP_MODIFIED (state s)\<rparr>;
             s2 = s1\<lparr>h := vsub (xNew s1) (x s1)\<rparr>;
             nH' = vec_norm (h s2)
         in case checkStep nH' FAILURE_MINSTEP s2 of
              (False, s3) \<Rightarrow> Inl s3
            | (True, s3) \<Rightarrow> Inr (nH', s3))
      else if r = INVALID then
        Inr (nH, s\<lparr>state := insert STEP_INVALID (state s), QNew := PInf\<rparr>)
      else Inr (nH, s\<lparr>state := state s - {STEP_MODIFIED, STEP_INVALID}\<rparr>))"

text \<open>Lines 167--173: the evaluation of the objective at the proposal.\<close>

definition step_evaluate :: "StepResult \<Rightarrow> Impl \<Rightarrow> Impl" where
  "step_evaluate r s =
     (if r \<noteq> INVALID then
        (let s1 = s\<lparr>fNew := computeFunction (obj s) (xNew s),
                    functionCalls := functionCalls s + 1\<rparr>;
             s2 = s1\<lparr>QNew := dmul (Fin (1 / 2)) (squaredNorm (fNew s1))\<rparr>
         in s2\<lparr>JNew := computeDerivative (obj s2) (xNew s2) (fNew s2),
                derivativeCalls := derivativeCalls s2 + 1\<rparr>)
      else s)"

text \<open>Lines 175--179: the trial gradient; the first component is \<open>normInfGNew\<close>.\<close>

definition step_gradient :: "StepResult \<Rightarrow> Impl \<Rightarrow> double \<times> Impl" where
  "step_gradient r s =
     (if r \<noteq> INVALID \<and> (method s = BFGS \<or> dlt (QNew s) (Q s)) then
        (let s1 = s\<lparr>gNew := adjoint_vec (getParameterSize (obj s)) (JNew s) (fNew s)\<rparr>
         in (lpNormInf (gNew s1), s1))
      else (Fin 0, s))"

text \<open>Lines 131--138: the solve with the matrix of the active method.\<close>

definition step_solve :: "Eigen \<Rightarrow> Impl \<Rightarrow> Impl option" where
  "step_solve lib s = solve lib (case method s of LM \<Rightarrow> A s | BFGS \<Rightarrow> B s) s"

text \<open>Lines 140--147: the minimum-step guard, the clipping to the trust radius, the
  proposal and the call of \<open>tryStep\<close>. The result holds \<open>normH\<close> and the verdict.\<close>

definition step_trial :: "Impl \<Rightarrow> Impl + double \<times> StepResult \<times> Impl" where
  "step_trial s =
     (let nH = vec_norm (h s) in
      case checkStep nH FAILURE_MINSTEP s of
        (False, s1) \<Rightarrow> Inl s1
      | (True, s1) \<Rightarrow>
          (let s2 = (if method s1 = BFGS \<and> dgt nH (delta s1)
                     then s1\<lparr>h := map (\<lambda>c. dmul c (ddiv (delta s1) nH)) (h s1)\<rparr> else s1);
               s3 = s2\<lparr>xNew := vadd (x s2) (h s2)\<rparr>;
               (r, proposal) = tryStep (obj s3) (x s3) (xNew s3)
           in Inr (nH, r, s3\<lparr>xNew := proposal\<rparr>)))"

text \<open>Lines 148--179: what the step does with the verdict.\<close>

definition step_assess :: "double \<Rightarrow> StepResult \<Rightarrow> Impl \<Rightarrow> Impl + Locals \<times> Impl" where
  "step_assess nH r s =
     (case step_vet r nH s of
        Inl s1 \<Rightarrow> Inl s1
      | Inr (nH', s1) \<Rightarrow>
          (let s2 = step_evaluate r s1;
               (nG, s3) = step_gradient r s2
           in Inr (\<lparr>normH = nH', doStep = r, normInfGNew = nG,
                     isBetter = False, shouldSwitchMethod = False\<rparr>, s3)))"

text \<open>Lines 189--190 and 193--194: the trust radius is halved and tested.\<close>

definition halve_delta :: "Locals \<Rightarrow> Impl \<Rightarrow> Impl + Locals \<times> Impl" where
  "halve_delta lc s =
     (let s1 = s\<lparr>delta := ddiv (delta s) (Fin 2)\<rparr>
      in case checkStep (delta s1) FAILURE_MINTRUST s1 of
           (False, s2) \<Rightarrow> Inl s2
         | (True, s2) \<Rightarrow> Inr (lc, s2))"

text \<open>The gain ratio \<open>rho\<close> of line 185.\<close>

definition rho_BFGS :: "Impl \<Rightarrow> double" where
  "rho_BFGS s =
     ddiv (dsub (Q s) (QNew s))
       (dneg (dsub (dot (h s) (g s)) (dmul (Fin (1 / 2)) (squaredNorm (mat_vec (J s) (h s))))))"

text \<open>Lines 181--195: acceptance and trust radius in the BFGS branch.\<close>

definition step_BFGS :: "Locals \<Rightarrow> Impl \<Rightarrow> Impl + Locals \<times> Impl" where
  "step_BFGS lc s =
     (let lc1 = lc\<lparr>isBetter := dlt (QNew s) (Q s) \<or>
                       (dle (QNew s) (dmul (dadd (Fin 1) sqrtEps) (Q s)) \<and>
                        dlt (normInfGNew lc) (normInfG s))\<rparr>;
          lc2 = lc1\<lparr>shouldSwitchMethod := dge (normInfGNew lc1) (normInfG s)\<rparr>
      in if dlt (QNew s) (Q s) then
           (let rho = rho_BFGS s
            in if dgt rho (Fin (3 / 4)) then
                 Inr (lc2, s\<lparr>delta := dmax (delta s) (dmul (Fin 3) (normH lc2))\<rparr>)
               else if dlt rho (Fin (1 / 4)) then halve_delta lc2 s
               else Inr (lc2, s))
         else halve_delta lc2 s)"

text \<open>The gain ratio \<open>rho\<close> of line 199.\<close>

definition rho_LM :: "Impl \<Rightarrow> double" where
  "rho_LM s =
     ddiv (dsub (Q s) (QNew s))
       (dmul (Fin (- (1 / 2))) (dot (h s) (vsub (g s) (vscale (mu s) (h s)))))"

text \<open>Lines 196--218: acceptance and damping in the LM branch.\<close>

definition step_LM :: "Locals \<Rightarrow> Impl \<Rightarrow> Locals \<times> Impl" where
  "step_LM lc s =
     (let n = getParameterSize (obj s) in
      if dlt (QNew s) (Q s) then
        (let lc1 = lc\<lparr>isBetter := True\<rparr>;
             rho = rho_LM s;
             s1 = s\<lparr>mu := dmul (mu s)
                             (dmax (Fin (1 / 3))
                                (dsub (Fin 1) (dpow3 (dsub (dmul (Fin 2) rho) (Fin 1)))))\<rparr>;
             s2 = s1\<lparr>nu := Fin 2\<rparr>;
             (lc2, s3) =
               (if dlt (dmin (normInfGNew lc1) (dsub (Q s2) (QNew s2)))
                       (dmul (Fin (2 / 100)) (QNew s2))
                then (let s' = s2\<lparr>count := count s2 + 1\<rparr>
                      in (if count s' = 3 then lc1\<lparr>shouldSwitchMethod := True\<rparr> else lc1, s'))
                else (lc1, s2\<lparr>count := 0\<rparr>))
         in if count s3 \<noteq> 3 then
              (let s4 = s3\<lparr>A := zero_mat n n\<rparr>;
                   s5 = s4\<lparr>A := rankUpdate_adjoint n (A s4) (JNew s4)\<rparr>
               in (lc2, s5\<lparr>A := diagonal_add n (A s5) (mu s5)\<rparr>))
            else (lc2, s3))
      else
        (let s1 = s\<lparr>A := diagonal_add n (A s) (dmul (mu s) (dsub (nu s) (Fin 1)))\<rparr>;
             s2 = s1\<lparr>mu := dmul (mu s1) (nu s1)\<rparr>;
             s3 = s2\<lparr>nu := dmul (nu s2) (Fin 2)\<rparr>
         in (lc\<lparr>shouldSwitchMethod := dge (nu s3) (Fin 32)\<rparr>, s3)))"

text \<open>Lines 221--228: the update of \<open>B\<close>.\<close>

definition step_update_B :: "Impl \<Rightarrow> Impl" where
  "step_update_B s =
     (let n = getParameterSize (obj s);
          s1 = s\<lparr>y := vadd (adjoint_vec n (JNew s) (mat_vec (JNew s) (h s)))
                            (vsub (gNew s) (g s))\<rparr>;
          hy = dot (h s1) (y s1)
      in if dgt hy (Fin 0) then
           (let s2 = s1\<lparr>v := selfadjoint_vec n (B s1) (h s1)\<rparr>;
                hv = dot (h s2) (v s2);
                s3 = s2\<lparr>B := rankUpdate n (B s2) (v s2) (ddiv (Fin (- 1)) hv)\<rparr>
            in s3\<lparr>B := rankUpdate n (B s3) (y s3) (ddiv (Fin 1) hy)\<rparr>)
         else s1)"

text \<open>Lines 231--243: the commit of an accepted proposal.\<close>

definition step_commit :: "Locals \<Rightarrow> Impl \<Rightarrow> Impl" where
  "step_commit lc s =
     (let s1 = s\<lparr>x := xNew s, f := fNew s, Q := QNew s, J := JNew s, g := gNew s\<rparr>;
          s2 = s1\<lparr>normInfF := lpNormInf (f s1)\<rparr>;
          s3 = s2\<lparr>normInfG := normInfGNew lc\<rparr>;
          s4 = (if \<not> dgt (normInfF s3) (fTol (ctrl s3))
                then s3\<lparr>state := insert SUCCESS_FTOL (state s3)\<rparr> else s3)
      in if \<not> dgt (normInfG s4) (gTol (ctrl s4))
         then s4\<lparr>state := insert SUCCESS_GTOL (state s4)\<rparr> else s4)"

text \<open>Lines 247--255: the switch of the method.\<close>

definition step_switch :: "Locals \<Rightarrow> Impl \<Rightarrow> Impl" where
  "step_switch lc s =
     (let n = getParameterSize (obj s) in
      if method s = BFGS then
        (let s1 = s\<lparr>A := zero_mat n n\<rparr>;
             s2 = s1\<lparr>A := rankUpdate_adjoint n (A s1) (J s1)\<rparr>;
             s3 = s2\<lparr>A := diagonal_add n (A s2) (mu s2)\<rparr>
         in s3\<lparr>method := LM\<rparr>)
      else
        (let s1 = s\<lparr>delta := dmax (dmul (dmul (Fin (3 / 2)) (minStep (ctrl s)))
                                      (dadd (squaredNorm (f s)) (minStep (ctrl s))))
                                   (dmul (Fin (2 / 10)) (normH lc))\<rparr>
         in s1\<lparr>method := BFGS\<rparr>))"

text \<open>Lines 219--262: the end of the step.\<close>

definition step_finish :: "Locals \<Rightarrow> Impl \<Rightarrow> Impl" where
  "step_finish lc s =
     (if doStep lc = INVALID then s
      else
        (let s1 = step_update_B s;
             s2 = (if isBetter lc then step_commit lc s1 else s1);
             s3 = (if shouldSwitchMethod lc then step_switch lc s2 else s2)
         in if isBetter lc then s3\<lparr>state := insert STEP_ACCEPTED (state s3)\<rparr>
            else s3\<lparr>state := state s3 - {STEP_ACCEPTED}\<rparr>))"

text \<open>Lines 181--218: the branch on the method.\<close>

definition step_branch :: "Locals \<Rightarrow> Impl \<Rightarrow> Impl + Locals \<times> Impl" where
  "step_branch lc s = (if method s = BFGS then step_BFGS lc s else Inr (step_LM lc s))"

text \<open>\<open>Impl::step\<close> (lines 126--263).\<close>

definition step :: "Eigen \<Rightarrow> Impl \<Rightarrow> Impl option" where
  "step lib s =
     (case step_solve lib s of
        None \<Rightarrow> None
      | Some s1 \<Rightarrow>
          Some (case step_trial s1 of
                  Inl s2 \<Rightarrow> s2
                | Inr (nH, r, s2) \<Rightarrow>
                    (case step_assess nH r s2 of
                       Inl s3 \<Rightarrow> s3
                     | Inr (lc, s3) \<Rightarrow>
                         (case step_branch lc s3 of
                            Inl s4 \<Rightarrow> s4
                          | Inr (lc', s4) \<Rightarrow> step_finish lc' s4))))"

section \<open>The driver\<close>

text \<open>\<open>HybridOptimizer::run\<close> (lines 291--298): \<open>k\<close> is the number of iterations the
  loop has left.\<close>

fun run_loop :: "Eigen \<Rightarrow> nat \<Rightarrow> Impl \<Rightarrow> Impl option" where
  "run_loop lib 0 s = Some (s\<lparr>state := insert FAILURE_MAXITER (state s)\<rparr>)"
| "run_loop lib (Suc k) s =
     (case step lib s of
        None \<Rightarrow> None
      | Some s1 \<Rightarrow> if state s1 \<inter> FINISHED \<noteq> {} then Some s1 else run_loop lib k s1)"

definition run :: "Eigen \<Rightarrow> Impl \<Rightarrow> Impl option" where
  "run lib s = run_loop lib (nat (maxIter (ctrl s))) s"

text \<open>\<open>n\<close> consecutive calls of \<open>step()\<close>.\<close>

fun steps :: "Eigen \<Rightarrow> nat \<Rightarrow> Impl \<Rightarrow> Impl option" where
  "steps lib 0 s = Some s"
| "steps lib (Suc n) s = (case step lib s of None \<Rightarrow> None | Some s1 \<Rightarrow> steps lib n s1)"

section \<open>Small problems\<close>

text \<open>
  Problems with one parameter and one residual, on which the optimizer is run below. For
  one parameter the systems to solve are 1 by 1: the solve is a division, the only
  eigenvalue is the entry of the matrix and the eigenvector is 1.
\<close>

definition lib1 :: Eigen where
  "lib1 = \<lparr>ldlt_solve = (\<lambda>m b. [ddiv (b ! 0) (m ! 0 ! 0)]),
            eigh = (\<lambda>m. ([m ! 0 ! 0], [[Fin 1]]))\<rparr>"

definition ctrl1 :: HybridOptimizerControl where
  "ctrl1 = \<lparr>fTol = Fin 0, gTol = Fin 0, minStep = Fin (1 / 128), delta0 = Fin 1,
             tau = Fin 1, maxIter = 10, useCholesky = True\<rparr>"

text \<open>The residual \<open>f(p) = p\<close>. Its \<open>tryStep\<close> accepts every proposal made at the
  starting point 1 and refuses to evaluate any proposal made elsewhere.\<close>

definition objLinear :: Objective where
  "objLinear = \<lparr>getParameterSize = 1, getFunctionSize = 1,
                 computeFunction = (\<lambda>p. p),
                 computeDerivative = (\<lambda>p r. [[Fin 1]]),
                 tryStep = (\<lambda>p q. (if p = [Fin 1] then VALID else INVALID, q))\<rparr>"

text \<open>The same residual; \<open>tryStep\<close> reports at the starting point 1 that it has
  modified the proposal (which it leaves where it is) and refuses any proposal made
  elsewhere.\<close>

definition objModified :: Objective where
  "objModified = \<lparr>getParameterSize = 1, getFunctionSize = 1,
                   computeFunction = (\<lambda>p. p),
                   computeDerivative = (\<lambda>p r. [[Fin 1]]),
                   tryStep = (\<lambda>p q. (if p = [Fin 1] then MODIFIED else INVALID, q))\<rparr>"

text \<open>The same residual; \<open>tryStep\<close> puts every proposal back onto the current
  point and reports the modification.\<close>

definition objClamp :: Objective where
  "objClamp = \<lparr>getParameterSize = 1, getFunctionSize = 1,
                computeFunction = (\<lambda>p. p),
                computeDerivative = (\<lambda>p r. [[Fin 1]]),
                tryStep = (\<lambda>p q. (MODIFIED, p))\<rparr>"

text \<open>The same residual; \<open>tryStep\<close> refuses every proposal.\<close>

definition objInvalid :: Objective where
  "objInvalid = \<lparr>getParameterSize = 1, getFunctionSize = 1,
                  computeFunction = (\<lambda>p. p),
                  computeDerivative = (\<lambda>p r. [[Fin 1]]),
                  tryStep = (\<lambda>p q. (INVALID, q))\<rparr>"

text \<open>A residual that is 1 at the origin and 2 everywhere else, with a Jacobian that
  claims the slope 1: every step away from the origin is evaluated and makes the
  objective worse.\<close>

definition objStuck :: Objective where
  "objStuck = \<lparr>getParameterSize = 1, getFunctionSize = 1,
                computeFunction = (\<lambda>p. if p = [Fin 0] then [Fin 1] else [Fin 2]),
                computeDerivative = (\<lambda>p r. [[Fin 1]]),
                tryStep = (\<lambda>p q. (VALID, q))\<rparr>"



text \<open>States of these problems that the statements below refer to: a start with a NaN
  parameter; the start of \<open>objClamp\<close> and its state after the solve; and a state of
  \<open>objStuck\<close> in the BFGS method with a small trust radius, after the solve, after the
  call of \<open>tryStep\<close>, and after the evaluation, with the local variables at that point.\<close>

definition nan_start :: Impl where
  "nan_start = Impl_init objLinear [NaN] ctrl1"

definition nan_solved :: Impl where
  "nan_solved = nan_start\<lparr>h := [NaN]\<rparr>"

definition clamp_start :: Impl where
  "clamp_start = Impl_init objClamp [Fin 1] ctrl1"

definition clamp_solved :: Impl where
  "clamp_solved = clamp_start\<lparr>h := [Fin (- (1 / 2))]\<rparr>"

definition trust_start :: Impl where
  "trust_start = (Impl_init objStuck [Fin 0] ctrl1)\<lparr>method := BFGS, delta := Fin (1 / 8192)\<rparr>"

definition trust_solved :: Impl where
  "trust_solved = trust_start\<lparr>h := [Fin (- 1)]\<rparr>"

definition trust_tried :: Impl where
  "trust_tried = trust_start\<lparr>h := [Fin (- (1 / 8192))], xNew := [Fin (- (1 / 8192))]\<rparr>"

definition trust_assessed :: Impl where
  "trust_assessed =
     trust_tried\<lparr>fNew := [Fin 2], QNew := Fin 2, gNew := [Fin 2],
                  functionCalls := 2, derivativeCalls := 2\<rparr>"

definition trust_locals :: Locals where
  "trust_locals = \<lparr>normH = Fin 1, doStep = VALID, normInfGNew = Fin 2, isBetter = False,
                    shouldSwitchMethod = False\<rparr>"

text \<open>The start of \<open>objLinear\<close> with the eigen-decomposition solve selected.\<close>

definition eigen_start :: Impl where
  "eigen_start = (Impl_init objLinear [Fin 1] ctrl1)\<lparr>ctrl := ctrl1\<lparr>useCholesky := False\<rparr>\<rparr>"



section \<open>What a step does, seen from outside\<close>

text \<open>The verdict of \<open>tryStep\<close> in the step that starts in a state; \<open>None\<close> when the
  step ends before line 147 calls it.\<close>

definition step_verdict :: "Eigen \<Rightarrow> Impl \<Rightarrow> StepResult option" where
  "step_verdict lib s =
     (case step_solve lib s of
        None \<Rightarrow> None
      | Some s1 \<Rightarrow> (case step_trial s1 of Inl s2 \<Rightarrow> None | Inr (nH, r, s2) \<Rightarrow> Some r))"

text \<open>
  The step that starts in a state is an LM step whose proposal is evaluated and rejected:
  the method is LM, the step passes the guards of lines 141 and 155, \<open>tryStep\<close> does not
  return \<open>INVALID\<close>, and line 197 finds \<open>QNew < Q\<close> false. \<open>LM_rejects_n\<close> says
  so of each of \<open>n\<close> consecutive steps.
\<close>

definition LM_rejects :: "Eigen \<Rightarrow> Impl \<Rightarrow> bool" where
  "LM_rejects lib s =
     (method s = LM \<and>
      (case step_solve lib s of
         None \<Rightarrow> False
       | Some s1 \<Rightarrow>
           (case step_trial s1 of
              Inl s2 \<Rightarrow> False
            | Inr (nH, r, s2) \<Rightarrow>
                r \<noteq> INVALID \<and>
                (case step_assess nH r s2 of
                   Inl s3 \<Rightarrow> False
                 | Inr (lc, s3) \<Rightarrow> \<not> dlt (QNew s3) (Q s3)))))"

fun LM_rejects_n :: "Eigen \<Rightarrow> nat \<Rightarrow> Impl \<Rightarrow> bool" where
  "LM_rejects_n lib 0 s = True"
| "LM_rejects_n lib (Suc n) s =
     (LM_rejects lib s \<and>
      (case step lib s of None \<Rightarrow> False | Some s1 \<Rightarrow> LM_rejects_n lib n s1))"

section \<open>Finite values\<close>

text \<open>
  Statements about the exact result of a computation are about finite values, on which the
  operations of the model are those of the real numbers: \<open>isfinite\<close> is
  \<open>std::isfinite\<close>, \<open>to_real\<close> the real number a finite value stands for, and
  \<open>finite_vec n\<close> and \<open>finite_mat n\<close> say that a vector has \<open>n\<close> finite coefficients
  and that a matrix has \<open>n\<close> such rows.
\<close>

fun isfinite :: "double \<Rightarrow> bool" where
  "isfinite (Fin a) = True"
| "isfinite PInf = False"
| "isfinite NInf = False"
| "isfinite NaN = False"

fun to_real :: "double \<Rightarrow> real" where
  "to_real (Fin a) = a"
| "to_real PInf = 0"
| "to_real NInf = 0"
| "to_real NaN = 0"

definition finite_vec :: "nat \<Rightarrow> vec \<Rightarrow> bool" where
  "finite_vec n u = (length u = n \<and> list_all isfinite u)"

definition finite_mat :: "nat \<Rightarrow> mat \<Rightarrow> bool" where
  "finite_mat n M = (length M = n \<and> list_all (finite_vec n) M)"


section \<open>Evaluation on the small problems\<close>

text \<open>
  The simplifier runs the model on concrete states. The weak congruence rules make it
  evaluate the bound term of a \<open>let\<close> and the scrutinee of a \<open>case\<close> before it looks at
  the body.
\<close>

lemmas ev_cong = let_weak_cong prod.case_cong_weak sum.case_cong_weak option.case_cong_weak

lemma upt1: "[0..<1] = [0]" by (simp add: upt_rec)

lemmas la_defs = vsum_def dot_def squaredNorm_def vec_norm_def vadd_def vsub_def vscale_def vneg_def
  zero_vec_def zero_mat_def identity_mat_def mat_vec_def adjoint_vec_def selfadjointView_def selfadjoint_vec_def
  rankUpdate_def rankUpdate_adjoint_def diagonal_def diagonal_add_def dsub_def dgt_def dge_def dmax_def dmin_def dpow3_def

lemma obj_simps:
  "getParameterSize objLinear = 1" "getFunctionSize objLinear = 1" "computeFunction objLinear p = p"
  "computeDerivative objLinear p r = [[Fin 1]]" "tryStep objLinear p q = (if p = [Fin 1] then VALID else INVALID, q)"
  "getParameterSize objModified = 1" "getFunctionSize objModified = 1" "computeFunction objModified p = p"
  "computeDerivative objModified p r = [[Fin 1]]" "tryStep objModified p q = (if p = [Fin 1] then MODIFIED else INVALID, q)"
  "getParameterSize objInvalid = 1" "getFunctionSize objInvalid = 1" "computeFunction objInvalid p = p"
  "computeDerivative objInvalid p r = [[Fin 1]]" "tryStep objInvalid p q = (INVALID, q)"
  "getParameterSize objStuck = 1" "getFunctionSize objStuck = 1" "computeFunction objStuck p = (if p = [Fin 0] then [Fin 1] else [Fin 2])"
  "computeDerivative objStuck p r = [[Fin 1]]" "tryStep objStuck p q = (VALID, q)"
  "getParameterSize objClamp = 1" "getFunctionSize objClamp = 1" "computeFunction objClamp p = p"
  "computeDerivative objClamp p r = [[Fin 1]]" "tryStep objClamp p q = (MODIFIED, p)"
  by (simp_all add: objLinear_def objModified_def objInvalid_def objStuck_def objClamp_def)

lemma ctrl1_simps: "fTol ctrl1 = Fin 0" "gTol ctrl1 = Fin 0" "minStep ctrl1 = Fin (1/128)" "delta0 ctrl1 = Fin 1"
  "tau ctrl1 = Fin 1" "maxIter ctrl1 = 10" "useCholesky ctrl1 = True"
  by (simp_all add: ctrl1_def)

lemma lib1_simps: "ldlt_solve lib1 m b = [ddiv (b ! 0) (m ! 0 ! 0)]" "eigh lib1 m = ([m ! 0 ! 0], [[Fin 1]])"
  by (simp_all add: lib1_def)

lemmas step_defs = step_def step_solve_def solve_def step_trial_def stepFloor_def checkStep_def step_vet_def step_assess_def
  step_evaluate_def step_gradient_def halve_delta_def rho_BFGS_def rho_LM_def
  step_branch_def step_BFGS_def step_LM_def step_finish_def step_update_B_def step_commit_def step_switch_def

lemmas ev_simps = step_defs lib1_simps obj_simps ctrl1_simps Let_def la_defs upt1 real_sqrt_divide

lemma init_zero:
  "Impl_init objLinear [Fin 0] ctrl1 =
     \<lparr>obj = objLinear, ctrl = ctrl1, method = LM, state = {}, count = 0, rank = 1,
      x = [Fin 0], xNew = [Fin 0], f = [Fin 0], fNew = [Fin 0], J = [[Fin 1]], JNew = [[Fin 1]],
      h = [Fin 0], y = [Fin 0], v = [Fin 0], A = [[Fin 2]], B = [[Fin 1]], g = [Fin 0],
      gNew = [Fin 0], normInfF = Fin 0, normInfG = Fin 0, Q = Fin 0, QNew = Fin 0,
      mu = Fin 1, nu = Fin 2, delta = Fin 1, functionCalls = 1, derivativeCalls = 1\<rparr>"
  by (simp add: Impl_init_def obj_simps ctrl1_simps Let_def la_defs upt1 cong: ev_cong)

lemma step_zero:
  "step lib1 ((Impl_init objLinear [Fin 0] ctrl1)\<lparr>state := {SUCCESS_FTOL}\<rparr>) =
     Some ((Impl_init objLinear [Fin 0] ctrl1)\<lparr>state := {FAILURE_MINSTEP, SUCCESS_FTOL}\<rparr>)"
  by (simp add: init_zero ev_simps cong: ev_cong)

lemma run_zero:
  "run lib1 ((Impl_init objLinear [Fin 0] ctrl1)\<lparr>state := {SUCCESS_FTOL}\<rparr>) =
     Some ((Impl_init objLinear [Fin 0] ctrl1)\<lparr>state := {FAILURE_MINSTEP, SUCCESS_FTOL}\<rparr>)"
proof -
  have "nat (maxIter (ctrl ((Impl_init objLinear [Fin 0] ctrl1)\<lparr>state := {SUCCESS_FTOL}\<rparr>))) = Suc 9"
    by (simp add: init_zero ctrl1_simps)
  then show ?thesis
    by (simp add: run_def step_zero FINISHED_def eval_nat_numeral)
qed

section \<open>The blocks of a step\<close>

lemma checkStep_cases:
  "checkStep u bad s = (False, s\<lparr>state := insert bad (state s)\<rparr>) \<or> checkStep u bad s = (True, s)"
  by (simp add: checkStep_def)

lemma solve_frame:
  "solve lib m s = Some s1 \<Longrightarrow> s1 = s\<lparr>rank := rank s1, h := h s1\<rparr>"
  by (auto simp: solve_def Let_def split: if_splits prod.splits)

lemma step_solve_frame:
  "step_solve lib s = Some s1 \<Longrightarrow> s1 = s\<lparr>rank := rank s1, h := h s1\<rparr>"
  unfolding step_solve_def by (rule solve_frame)

lemma step_trial_Inl:
  "step_trial s = Inl s' \<Longrightarrow> s' = s\<lparr>state := insert FAILURE_MINSTEP (state s)\<rparr>"
  using checkStep_cases [of "vec_norm (h s)" FAILURE_MINSTEP s]
  by (auto simp: step_trial_def Let_def split: prod.splits)

lemma step_trial_Inr:
  "step_trial s = Inr (nH, r, s') \<Longrightarrow> s' = s\<lparr>h := h s', xNew := xNew s'\<rparr>"
  using checkStep_cases [of "vec_norm (h s)" FAILURE_MINSTEP s]
  by (auto simp: step_trial_def Let_def split: prod.splits if_splits)

lemma step_vet_Inl:
  "step_vet r nH s = Inl s' \<Longrightarrow>
     r = MODIFIED \<and>
     s' = s\<lparr>state := insert FAILURE_MINSTEP (insert STEP_MODIFIED (state s)),
             h := vsub (xNew s) (x s)\<rparr>"
  using checkStep_cases [of "vec_norm (vsub (xNew s) (x s))" FAILURE_MINSTEP
          "s\<lparr>state := insert STEP_MODIFIED (state s), h := vsub (xNew s) (x s)\<rparr>"]
  by (auto simp: step_vet_def Let_def split: prod.splits if_splits)


lemma step_evaluate_state: "state (step_evaluate r s) = state s"
  by (simp add: step_evaluate_def Let_def)

lemma step_gradient_state: "state (snd (step_gradient r s)) = state s"
  by (simp add: step_gradient_def Let_def)

lemma step_assess_Inl:
  "step_assess nH r s = Inl s' \<Longrightarrow>
     r = MODIFIED \<and>
     s' = s\<lparr>state := insert FAILURE_MINSTEP (insert STEP_MODIFIED (state s)),
             h := vsub (xNew s) (x s)\<rparr>"
  using step_vet_Inl [of r nH s s']
  by (auto simp: step_assess_def Let_def split: sum.splits prod.splits)

lemma step_vet_state:
  "step_vet r nH s = Inr (nH', s') \<Longrightarrow>
     state s' = (case r of MODIFIED \<Rightarrow> insert STEP_MODIFIED (state s)
                         | INVALID \<Rightarrow> insert STEP_INVALID (state s)
                         | VALID \<Rightarrow> state s - {STEP_MODIFIED, STEP_INVALID})"
  using checkStep_cases [of "vec_norm (vsub (xNew s) (x s))" FAILURE_MINSTEP
          "s\<lparr>state := insert STEP_MODIFIED (state s), h := vsub (xNew s) (x s)\<rparr>"]
  by (cases r) (auto simp: step_vet_def Let_def split: prod.splits if_splits)

lemma step_assess_Inr:
  assumes "step_assess nH r s = Inr (lc, s')"
  shows "doStep lc = r \<and> \<not> isBetter lc \<and> \<not> shouldSwitchMethod lc \<and>
     state s' = (case r of MODIFIED \<Rightarrow> insert STEP_MODIFIED (state s)
                         | INVALID \<Rightarrow> insert STEP_INVALID (state s)
                         | VALID \<Rightarrow> state s - {STEP_MODIFIED, STEP_INVALID})"
proof -
  from assms obtain nH' s1 where vet: "step_vet r nH s = Inr (nH', s1)"
    by (auto simp: step_assess_def split: sum.splits)
  obtain nG s3 where gr: "step_gradient r (step_evaluate r s1) = (nG, s3)"
    by (cases "step_gradient r (step_evaluate r s1)")
  from assms vet gr have lc: "lc = \<lparr>normH = nH', doStep = r, normInfGNew = nG,
      isBetter = False, shouldSwitchMethod = False\<rparr>" and s': "s' = s3"
    by (simp_all add: step_assess_def Let_def)
  have "state s3 = state s1"
    using step_gradient_state [of r "step_evaluate r s1"] gr by (simp add: step_evaluate_state)
  with step_vet_state [OF vet] lc s' show ?thesis by simp
qed

lemma halve_delta_Inl:
  "halve_delta lc s = Inl s' \<Longrightarrow>
     s' = s\<lparr>delta := ddiv (delta s) (Fin 2), state := insert FAILURE_MINTRUST (state s)\<rparr>"
  using checkStep_cases [of "ddiv (delta s) (Fin 2)" FAILURE_MINTRUST
          "s\<lparr>delta := ddiv (delta s) (Fin 2)\<rparr>"]
  by (auto simp: halve_delta_def Let_def split: prod.splits)

lemma halve_delta_Inr:
  "halve_delta lc s = Inr (lc', s') \<Longrightarrow> lc' = lc \<and> s' = s\<lparr>delta := ddiv (delta s) (Fin 2)\<rparr>"
  using checkStep_cases [of "ddiv (delta s) (Fin 2)" FAILURE_MINTRUST
          "s\<lparr>delta := ddiv (delta s) (Fin 2)\<rparr>"]
  by (auto simp: halve_delta_def Let_def split: prod.splits)

lemma step_BFGS_Inl:
  "step_BFGS lc s = Inl s' \<Longrightarrow>
     s' = s\<lparr>delta := ddiv (delta s) (Fin 2), state := insert FAILURE_MINTRUST (state s)\<rparr>"
  by (auto simp: step_BFGS_def Let_def split: if_splits dest: halve_delta_Inl)

lemma step_BFGS_Inr:
  "step_BFGS lc s = Inr (lc', s') \<Longrightarrow>
     s' = s\<lparr>delta := delta s'\<rparr> \<and> doStep lc' = doStep lc \<and> normH lc' = normH lc \<and>
     normInfGNew lc' = normInfGNew lc \<and>
     isBetter lc' = (dlt (QNew s) (Q s) \<or>
        (dle (QNew s) (dmul (dadd (Fin 1) sqrtEps) (Q s)) \<and> dlt (normInfGNew lc) (normInfG s)))"
  by (auto simp: step_BFGS_def Let_def split: if_splits dest!: halve_delta_Inr)

lemma step_LM_state: "step_LM lc s = (lc', s') \<Longrightarrow>
    state s' = state s \<and> doStep lc' = doStep lc \<and> normH lc' = normH lc \<and>
    normInfGNew lc' = normInfGNew lc \<and> isBetter lc' = (isBetter lc \<or> dlt (QNew s) (Q s))"
  by (auto simp: step_LM_def Let_def split: if_splits)

lemma step_branch_Inl:
  "step_branch lc s = Inl s' \<Longrightarrow>
     method s = BFGS \<and>
     s' = s\<lparr>delta := ddiv (delta s) (Fin 2), state := insert FAILURE_MINTRUST (state s)\<rparr>"
  by (auto simp: step_branch_def split: if_splits dest: step_BFGS_Inl)

lemma step_branch_Inr:
  "step_branch lc s = Inr (lc', s') \<Longrightarrow>
     state s' = state s \<and> doStep lc' = doStep lc \<and> normH lc' = normH lc \<and>
     normInfGNew lc' = normInfGNew lc"
  apply (simp add: step_branch_def split: if_splits)
   apply (drule step_BFGS_Inr)
   apply (elim conjE)
   apply (drule arg_cong [where f = state])
   apply simp
  apply (drule step_LM_state)
  apply simp
  done


lemma step_update_B_state: "state (step_update_B s) = state s"
  by (simp add: step_update_B_def Let_def)

lemma step_switch_state: "state (step_switch lc s) = state s"
  by (simp add: step_switch_def Let_def)

lemma step_commit_state:
  "state s \<subseteq> state (step_commit lc s) \<and>
   state (step_commit lc s) \<subseteq> state s \<union> {SUCCESS_FTOL, SUCCESS_GTOL}"
  by (auto simp: step_commit_def Let_def)

lemma step_finish_INVALID: "doStep lc = INVALID \<Longrightarrow> step_finish lc s = s"
  by (simp add: step_finish_def)

lemma step_finish_state:
  assumes "doStep lc \<noteq> INVALID"
  shows "(STEP_ACCEPTED \<in> state (step_finish lc s) \<longleftrightarrow> isBetter lc) \<and>
         state s - {STEP_ACCEPTED} \<subseteq> state (step_finish lc s) \<and>
         state (step_finish lc s) \<subseteq> state s \<union> {STEP_ACCEPTED, SUCCESS_FTOL, SUCCESS_GTOL}"
proof (cases "isBetter lc")
  case True
  have "state (step_finish lc s) = insert STEP_ACCEPTED (state (step_commit lc (step_update_B s)))"
    using assms True by (simp add: step_finish_def Let_def step_switch_state)
  with step_commit_state [of "step_update_B s" lc] True show ?thesis
    by (auto simp: step_update_B_state)
next
  case False
  have "state (step_finish lc s) = state s - {STEP_ACCEPTED}"
    using assms False by (simp add: step_finish_def Let_def step_switch_state step_update_B_state)
  with False show ?thesis by auto
qed

lemma step_cases [consumes 1, case_names no_step modified_no_step no_trust finished]:
  assumes "step lib s = Some s'"
  obtains
    s1 where "step_solve lib s = Some s1" "step_trial s1 = Inl s'"
  | s1 nH r s2 where "step_solve lib s = Some s1" "step_trial s1 = Inr (nH, r, s2)"
      "step_assess nH r s2 = Inl s'"
  | s1 nH r s2 lc s3 where "step_solve lib s = Some s1" "step_trial s1 = Inr (nH, r, s2)"
      "step_assess nH r s2 = Inr (lc, s3)" "step_branch lc s3 = Inl s'"
  | s1 nH r s2 lc s3 lc' s4 where "step_solve lib s = Some s1"
      "step_trial s1 = Inr (nH, r, s2)" "step_assess nH r s2 = Inr (lc, s3)"
      "step_branch lc s3 = Inr (lc', s4)" "s' = step_finish lc' s4"
  using assms
  by (auto simp: step_def split: option.splits sum.splits prod.splits)

lemma step_solve_state: "step_solve lib s = Some s1 \<Longrightarrow> state s1 = state s"
  by (auto simp: step_solve_def solve_def Let_def split: if_splits prod.splits)

lemma step_trial_state: "step_trial s = Inr (nH, r, s') \<Longrightarrow> state s' = state s"
  using checkStep_cases [of "vec_norm (h s)" FAILURE_MINSTEP s]
  by (auto simp: step_trial_def Let_def split: prod.splits if_splits)

lemma step_keeps_flags:
  assumes "step lib s = Some s'"
  shows "state s - {STEP_ACCEPTED, STEP_MODIFIED, STEP_INVALID} \<subseteq> state s'"
  using assms
proof (cases rule: step_cases)
  case (no_step s1)
  with step_solve_state [OF no_step(1)] step_trial_Inl [OF no_step(2)] show ?thesis
    by auto
next
  case (modified_no_step s1 nH r s2)
  with step_solve_state [OF modified_no_step(1)] step_trial_state [OF modified_no_step(2)]
    step_assess_Inl [OF modified_no_step(3)]
  show ?thesis by auto
next
  case (no_trust s1 nH r s2 lc s3)
  have a: "state s3 - {STEP_MODIFIED, STEP_INVALID} = state s - {STEP_MODIFIED, STEP_INVALID}"
    using step_solve_state [OF no_trust(1)] step_trial_state [OF no_trust(2)]
      step_assess_Inr [OF no_trust(3)]
    by (cases r) auto
  have "state s' = insert FAILURE_MINTRUST (state s3)"
    using step_branch_Inl [OF no_trust(4)] by simp
  with a show ?thesis by auto
next
  case (finished s1 nH r s2 lc s3 lc' s4)
  have a: "state s3 - {STEP_MODIFIED, STEP_INVALID} = state s - {STEP_MODIFIED, STEP_INVALID}"
    using step_solve_state [OF finished(1)] step_trial_state [OF finished(2)]
      step_assess_Inr [OF finished(3)]
    by (cases r) auto
  have b: "state s4 = state s3" using step_branch_Inr [OF finished(4)] by simp
  have "state s4 - {STEP_ACCEPTED} \<subseteq> state s'"
  proof (cases "doStep lc' = INVALID")
    case True
    then show ?thesis using finished(5) by (auto simp: step_finish_INVALID)
  next
    case False
    then show ?thesis using step_finish_state [OF False, of s4] finished(5) by simp
  qed
  with a b show ?thesis by auto
qed


section \<open>Flags that are never cleared\<close>

lemma run_loop_keeps_flags:
  "run_loop lib k s = Some s' \<Longrightarrow>
     state s - {STEP_ACCEPTED, STEP_MODIFIED, STEP_INVALID} \<subseteq> state s'"
proof (induction k arbitrary: s)
  case 0
  then show ?case by auto
next
  case (Suc k)
  from Suc.prems obtain s1 where s1: "step lib s = Some s1"
    by (auto split: option.splits)
  show ?case
  proof (cases "state s1 \<inter> FINISHED \<noteq> {}")
    case True
    with Suc.prems s1 have "s' = s1" by simp
    with step_keeps_flags [OF s1] show ?thesis by simp
  next
    case False
    with Suc.prems s1 have "run_loop lib k s1 = Some s'" by simp
    from Suc.IH [OF this] step_keeps_flags [OF s1] show ?thesis by auto
  qed
qed

lemma FINISHED_not_STEP:
  "state s \<inter> FINISHED \<subseteq> state s - {STEP_ACCEPTED, STEP_MODIFIED, STEP_INVALID}"
  by (auto simp: FINISHED_def)

text \<open>
  C3. Sticky terminals: a call of \<open>step()\<close> or of \<open>run()\<close> that returns leaves every
  flag set that was set before, except \<open>STEP_ACCEPTED\<close>, \<open>STEP_MODIFIED\<close> and
  \<open>STEP_INVALID\<close>; in particular each of \<open>SUCCESS_FTOL\<close>, \<open>SUCCESS_GTOL\<close>,
  \<open>FAILURE_MINSTEP\<close>, \<open>FAILURE_MINTRUST\<close> and \<open>FAILURE_MAXITER\<close> stays set
  once it is set. This holds from every state, hence along every sequence of calls.
\<close>

theorem sticky_terminals:
  "(step lib s = Some s' \<longrightarrow>
      state s - {STEP_ACCEPTED, STEP_MODIFIED, STEP_INVALID} \<subseteq> state s' \<and>
      state s \<inter> FINISHED \<subseteq> state s') \<and>
   (run lib s = Some s'' \<longrightarrow>
      state s - {STEP_ACCEPTED, STEP_MODIFIED, STEP_INVALID} \<subseteq> state s'' \<and>
      state s \<inter> FINISHED \<subseteq> state s'')"
proof (intro conjI impI)
  assume a: "step lib s = Some s'"
  show "state s - {STEP_ACCEPTED, STEP_MODIFIED, STEP_INVALID} \<subseteq> state s'"
    by (rule step_keeps_flags [OF a])
  with FINISHED_not_STEP [of s] show "state s \<inter> FINISHED \<subseteq> state s'" by blast
next
  assume a: "run lib s = Some s''"
  then show b: "state s - {STEP_ACCEPTED, STEP_MODIFIED, STEP_INVALID} \<subseteq> state s''"
    unfolding run_def by (rule run_loop_keeps_flags)
  with FINISHED_not_STEP [of s] show "state s \<inter> FINISHED \<subseteq> state s''" by blast
qed


theorem sticky_terminals_witness:
  "step lib1 ((Impl_init objLinear [Fin 0] ctrl1)\<lparr>state := {SUCCESS_FTOL}\<rparr>) =
     Some ((Impl_init objLinear [Fin 0] ctrl1)\<lparr>state := {FAILURE_MINSTEP, SUCCESS_FTOL}\<rparr>) \<and>
   run lib1 ((Impl_init objLinear [Fin 0] ctrl1)\<lparr>state := {SUCCESS_FTOL}\<rparr>) =
     Some ((Impl_init objLinear [Fin 0] ctrl1)\<lparr>state := {FAILURE_MINSTEP, SUCCESS_FTOL}\<rparr>) \<and>
   SUCCESS_FTOL \<in> state ((Impl_init objLinear [Fin 0] ctrl1)\<lparr>state := {SUCCESS_FTOL}\<rparr>) \<inter> FINISHED \<and>
   SUCCESS_FTOL \<in>
     state ((Impl_init objLinear [Fin 0] ctrl1)\<lparr>state := {FAILURE_MINSTEP, SUCCESS_FTOL}\<rparr>)"
  using sticky_terminals [of lib1 "(Impl_init objLinear [Fin 0] ctrl1)\<lparr>state := {SUCCESS_FTOL}\<rparr>"
      "(Impl_init objLinear [Fin 0] ctrl1)\<lparr>state := {FAILURE_MINSTEP, SUCCESS_FTOL}\<rparr>"
      "(Impl_init objLinear [Fin 0] ctrl1)\<lparr>state := {FAILURE_MINSTEP, SUCCESS_FTOL}\<rparr>"]
    step_zero run_zero
  by (simp add: FINISHED_def)


section \<open>The flags of the proposal\<close>

lemma step_verdict_returns: "step_verdict lib s = Some r \<Longrightarrow> \<exists>s'. step lib s = Some s'"
  by (simp add: step_verdict_def step_def split: option.splits)

lemma step_vetting_flags:
  assumes "step lib s = Some s'"
  shows "state s' \<inter> {STEP_MODIFIED, STEP_INVALID} =
     (case step_verdict lib s of
        None \<Rightarrow> state s
      | Some VALID \<Rightarrow> {}
      | Some MODIFIED \<Rightarrow> insert STEP_MODIFIED (state s)
      | Some INVALID \<Rightarrow> insert STEP_INVALID (state s)) \<inter> {STEP_MODIFIED, STEP_INVALID}"
  using assms
proof (cases rule: step_cases)
  case (no_step s1)
  then have "step_verdict lib s = None" by (simp add: step_verdict_def)
  with step_solve_state [OF no_step(1)] step_trial_Inl [OF no_step(2)] show ?thesis
    by auto
next
  case (modified_no_step s1 nH r s2)
  from step_assess_Inl [OF modified_no_step(3)] have r: "r = MODIFIED"
    and s': "state s' = insert FAILURE_MINSTEP (insert STEP_MODIFIED (state s2))" by simp_all
  from modified_no_step r have "step_verdict lib s = Some MODIFIED" by (simp add: step_verdict_def)
  with s' step_solve_state [OF modified_no_step(1)] step_trial_state [OF modified_no_step(2)]
  show ?thesis by auto
next
  case (no_trust s1 nH r s2 lc s3)
  have v: "step_verdict lib s = Some r" using no_trust by (simp add: step_verdict_def)
  have "state s' = insert FAILURE_MINTRUST (state s3)"
    using step_branch_Inl [OF no_trust(4)] by simp
  with v step_solve_state [OF no_trust(1)] step_trial_state [OF no_trust(2)]
    step_assess_Inr [OF no_trust(3)]
  show ?thesis by (cases r) auto
next
  case (finished s1 nH r s2 lc s3 lc' s4)
  have v: "step_verdict lib s = Some r" using finished by (simp add: step_verdict_def)
  have b: "state s4 = state s3" using step_branch_Inr [OF finished(4)] by simp
  have "state s' \<inter> {STEP_MODIFIED, STEP_INVALID} = state s4 \<inter> {STEP_MODIFIED, STEP_INVALID}"
  proof (cases "doStep lc' = INVALID")
    case True
    then show ?thesis using finished(5) by (simp add: step_finish_INVALID)
  next
    case False
    then show ?thesis using step_finish_state [OF False, of s4] finished(5) by auto
  qed
  with v b step_solve_state [OF finished(1)] step_trial_state [OF finished(2)]
    step_assess_Inr [OF finished(3)]
  show ?thesis by (cases r) auto
qed

lemma init_objModified:
  "Impl_init objModified [Fin 1] ctrl1 =
     \<lparr>obj = objModified, ctrl = ctrl1, method = LM, state = {}, count = 0, rank = 1,
      x = [Fin 1], xNew = [Fin 1], f = [Fin 1], fNew = [Fin 1], J = [[Fin 1]], JNew = [[Fin 1]],
      h = [Fin 0], y = [Fin 0], v = [Fin 0], A = [[Fin 2]], B = [[Fin 1]], g = [Fin 1],
      gNew = [Fin 0], normInfF = Fin 1, normInfG = Fin 1, Q = Fin (1 / 2), QNew = Fin (1 / 2),
      mu = Fin 1, nu = Fin 2, delta = Fin 1, functionCalls = 1, derivativeCalls = 1\<rparr>"
  by (simp add: Impl_init_def obj_simps ctrl1_simps Let_def la_defs upt1 cong: ev_cong)

lemma init_objLinear:
  "Impl_init objLinear [Fin 1] ctrl1 =
     \<lparr>obj = objLinear, ctrl = ctrl1, method = LM, state = {}, count = 0, rank = 1,
      x = [Fin 1], xNew = [Fin 1], f = [Fin 1], fNew = [Fin 1], J = [[Fin 1]], JNew = [[Fin 1]],
      h = [Fin 0], y = [Fin 0], v = [Fin 0], A = [[Fin 2]], B = [[Fin 1]], g = [Fin 1],
      gNew = [Fin 0], normInfF = Fin 1, normInfG = Fin 1, Q = Fin (1 / 2), QNew = Fin (1 / 2),
      mu = Fin 1, nu = Fin 2, delta = Fin 1, functionCalls = 1, derivativeCalls = 1\<rparr>"
  by (simp add: Impl_init_def obj_simps ctrl1_simps Let_def la_defs upt1 cong: ev_cong)

lemma init_objInvalid:
  "Impl_init objInvalid [Fin 1] ctrl1 =
     \<lparr>obj = objInvalid, ctrl = ctrl1, method = LM, state = {}, count = 0, rank = 1,
      x = [Fin 1], xNew = [Fin 1], f = [Fin 1], fNew = [Fin 1], J = [[Fin 1]], JNew = [[Fin 1]],
      h = [Fin 0], y = [Fin 0], v = [Fin 0], A = [[Fin 2]], B = [[Fin 1]], g = [Fin 1],
      gNew = [Fin 0], normInfF = Fin 1, normInfG = Fin 1, Q = Fin (1 / 2), QNew = Fin (1 / 2),
      mu = Fin 1, nu = Fin 2, delta = Fin 1, functionCalls = 1, derivativeCalls = 1\<rparr>"
  by (simp add: Impl_init_def obj_simps ctrl1_simps Let_def la_defs upt1 cong: ev_cong)

lemma steps_objModified:
  "map_option state (steps lib1 2 (Impl_init objModified [Fin 1] ctrl1)) =
     Some {STEP_INVALID, STEP_ACCEPTED, STEP_MODIFIED}"
  by (simp add: init_objModified numeral_2_eq_2 ev_simps cong: ev_cong)

lemma verdict_objModified:
  "step_verdict lib1 (Impl_init objModified [Fin 1] ctrl1) = Some MODIFIED"
  by (simp add: init_objModified step_verdict_def ev_simps cong: ev_cong)

lemma verdict_objInvalid:
  "step_verdict lib1 (Impl_init objInvalid [Fin 1] ctrl1) = Some INVALID"
  by (simp add: init_objInvalid step_verdict_def ev_simps cong: ev_cong)

lemma verdict_objLinear:
  "step_verdict lib1 (Impl_init objLinear [Fin 1] ctrl1) = Some VALID"
  by (simp add: init_objLinear step_verdict_def ev_simps cong: ev_cong)

lemma verdict_zero:
  "step_verdict lib1 ((Impl_init objLinear [Fin 0] ctrl1)\<lparr>state := {SUCCESS_FTOL}\<rparr>) = None"
  by (simp add: init_zero step_verdict_def ev_simps cong: ev_cong)

text \<open>
  C10. \<open>STEP_MODIFIED\<close> and \<open>STEP_INVALID\<close> are not mutually exclusive across steps.
  A step whose proposal \<open>tryStep\<close> reports as \<open>MODIFIED\<close> sets \<open>STEP_MODIFIED\<close> and
  leaves \<open>STEP_INVALID\<close> as it was; a step whose proposal is \<open>INVALID\<close> sets
  \<open>STEP_INVALID\<close> and leaves \<open>STEP_MODIFIED\<close> as it was; a \<open>VALID\<close> proposal clears
  both; a step that ends before it calls \<open>tryStep\<close> changes neither. On the problem
  \<open>objModified\<close> two steps from the start leave both flags set.
\<close>

theorem step_flags_not_exclusive:
  "(step_verdict lib s = Some MODIFIED \<longrightarrow>
      (\<exists>s'. step lib s = Some s' \<and> STEP_MODIFIED \<in> state s' \<and>
            (STEP_INVALID \<in> state s' \<longleftrightarrow> STEP_INVALID \<in> state s))) \<and>
   (step_verdict lib s = Some INVALID \<longrightarrow>
      (\<exists>s'. step lib s = Some s' \<and> STEP_INVALID \<in> state s' \<and>
            (STEP_MODIFIED \<in> state s' \<longleftrightarrow> STEP_MODIFIED \<in> state s))) \<and>
   (step_verdict lib s = Some VALID \<longrightarrow>
      (\<exists>s'. step lib s = Some s' \<and> STEP_MODIFIED \<notin> state s' \<and> STEP_INVALID \<notin> state s')) \<and>
   (step_verdict lib s = None \<longrightarrow>
      (\<forall>s'. step lib s = Some s' \<longrightarrow>
            (STEP_MODIFIED \<in> state s' \<longleftrightarrow> STEP_MODIFIED \<in> state s) \<and>
            (STEP_INVALID \<in> state s' \<longleftrightarrow> STEP_INVALID \<in> state s))) \<and>
   (\<exists>s'. steps lib1 2 (Impl_init objModified [Fin 1] ctrl1) = Some s' \<and>
         STEP_MODIFIED \<in> state s' \<and> STEP_INVALID \<in> state s')"
proof (intro conjI impI allI)
  assume a: "step_verdict lib s = Some MODIFIED"
  then obtain s' where s': "step lib s = Some s'" using step_verdict_returns by blast
  from step_vetting_flags [OF s'] a
  have "STEP_MODIFIED \<in> state s' \<and> (STEP_INVALID \<in> state s' \<longleftrightarrow> STEP_INVALID \<in> state s)"
    by auto
  with s' show "\<exists>s'. step lib s = Some s' \<and> STEP_MODIFIED \<in> state s' \<and>
            (STEP_INVALID \<in> state s' \<longleftrightarrow> STEP_INVALID \<in> state s)" by blast
next
  assume a: "step_verdict lib s = Some INVALID"
  then obtain s' where s': "step lib s = Some s'" using step_verdict_returns by blast
  from step_vetting_flags [OF s'] a
  have "STEP_INVALID \<in> state s' \<and> (STEP_MODIFIED \<in> state s' \<longleftrightarrow> STEP_MODIFIED \<in> state s)"
    by auto
  with s' show "\<exists>s'. step lib s = Some s' \<and> STEP_INVALID \<in> state s' \<and>
            (STEP_MODIFIED \<in> state s' \<longleftrightarrow> STEP_MODIFIED \<in> state s)" by blast
next
  assume a: "step_verdict lib s = Some VALID"
  then obtain s' where s': "step lib s = Some s'" using step_verdict_returns by blast
  from step_vetting_flags [OF s'] a
  have "STEP_MODIFIED \<notin> state s' \<and> STEP_INVALID \<notin> state s'" by auto
  with s' show "\<exists>s'. step lib s = Some s' \<and> STEP_MODIFIED \<notin> state s' \<and> STEP_INVALID \<notin> state s'"
    by blast
next
  fix s' assume a: "step_verdict lib s = None" and s': "step lib s = Some s'"
  from step_vetting_flags [OF s'] a
  show "STEP_MODIFIED \<in> state s' \<longleftrightarrow> STEP_MODIFIED \<in> state s"
    and "STEP_INVALID \<in> state s' \<longleftrightarrow> STEP_INVALID \<in> state s" by auto
next
  from steps_objModified obtain s' where
    "steps lib1 2 (Impl_init objModified [Fin 1] ctrl1) = Some s'"
    "state s' = {STEP_INVALID, STEP_ACCEPTED, STEP_MODIFIED}" by auto
  then show "\<exists>s'. steps lib1 2 (Impl_init objModified [Fin 1] ctrl1) = Some s' \<and>
         STEP_MODIFIED \<in> state s' \<and> STEP_INVALID \<in> state s'" by auto
qed

theorem step_flags_not_exclusive_witness:
  "step_verdict lib1 (Impl_init objModified [Fin 1] ctrl1) = Some MODIFIED \<and>
   (\<exists>s'. step lib1 (Impl_init objModified [Fin 1] ctrl1) = Some s' \<and>
         STEP_MODIFIED \<in> state s' \<and>
         (STEP_INVALID \<in> state s' \<longleftrightarrow> STEP_INVALID \<in> state (Impl_init objModified [Fin 1] ctrl1))) \<and>
   step_verdict lib1 (Impl_init objInvalid [Fin 1] ctrl1) = Some INVALID \<and>
   (\<exists>s'. step lib1 (Impl_init objInvalid [Fin 1] ctrl1) = Some s' \<and>
         STEP_INVALID \<in> state s' \<and>
         (STEP_MODIFIED \<in> state s' \<longleftrightarrow> STEP_MODIFIED \<in> state (Impl_init objInvalid [Fin 1] ctrl1))) \<and>
   step_verdict lib1 (Impl_init objLinear [Fin 1] ctrl1) = Some VALID \<and>
   (\<exists>s'. step lib1 (Impl_init objLinear [Fin 1] ctrl1) = Some s' \<and>
         STEP_MODIFIED \<notin> state s' \<and> STEP_INVALID \<notin> state s') \<and>
   step_verdict lib1 ((Impl_init objLinear [Fin 0] ctrl1)\<lparr>state := {SUCCESS_FTOL}\<rparr>) = None \<and>
   step lib1 ((Impl_init objLinear [Fin 0] ctrl1)\<lparr>state := {SUCCESS_FTOL}\<rparr>) =
     Some ((Impl_init objLinear [Fin 0] ctrl1)\<lparr>state := {FAILURE_MINSTEP, SUCCESS_FTOL}\<rparr>) \<and>
   STEP_INVALID \<notin>
     state ((Impl_init objLinear [Fin 0] ctrl1)\<lparr>state := {FAILURE_MINSTEP, SUCCESS_FTOL}\<rparr>)"
proof -
  note m = step_flags_not_exclusive [of lib1 "Impl_init objModified [Fin 1] ctrl1"]
  note i = step_flags_not_exclusive [of lib1 "Impl_init objInvalid [Fin 1] ctrl1"]
  note l = step_flags_not_exclusive [of lib1 "Impl_init objLinear [Fin 1] ctrl1"]
  note z = step_flags_not_exclusive
    [of lib1 "(Impl_init objLinear [Fin 0] ctrl1)\<lparr>state := {SUCCESS_FTOL}\<rparr>"]
  have "STEP_INVALID \<notin>
     state ((Impl_init objLinear [Fin 0] ctrl1)\<lparr>state := {FAILURE_MINSTEP, SUCCESS_FTOL}\<rparr>)"
    using z verdict_zero step_zero by simp
  with m i l verdict_objModified verdict_objInvalid verdict_objLinear verdict_zero step_zero
  show ?thesis by blast
qed


section \<open>The guards on the step length and the trust radius\<close>

lemma not_dgt: "isnan u \<or> dle u w \<Longrightarrow> \<not> dgt u w"
  by (cases u; cases w) (auto simp: dgt_def)

lemma checkStep_fails:
  "isnan u \<or> dle u (stepFloor s) \<Longrightarrow>
     checkStep u bad s = (False, s\<lparr>state := insert bad (state s)\<rparr>)"
  by (simp add: checkStep_def not_dgt)

lemma stepFloor_update [simp]:
  "stepFloor (s\<lparr>delta := d\<rparr>) = stepFloor s"
  "stepFloor (s\<lparr>state := fl\<rparr>) = stepFloor s"
  "stepFloor (s\<lparr>h := u\<rparr>) = stepFloor s"
  by (simp_all add: stepFloor_def)

lemma halve_delta_fails:
  "isnan (ddiv (delta s) (Fin 2)) \<or> dle (ddiv (delta s) (Fin 2)) (stepFloor s) \<Longrightarrow>
     halve_delta lc s =
       Inl (s\<lparr>delta := ddiv (delta s) (Fin 2), state := insert FAILURE_MINTRUST (state s)\<rparr>)"
  by (simp add: halve_delta_def Let_def checkStep_fails)

lemma step_trial_fails:
  "isnan (vec_norm (h s)) \<or> dle (vec_norm (h s)) (stepFloor s) \<Longrightarrow>
     step_trial s = Inl (s\<lparr>state := insert FAILURE_MINSTEP (state s)\<rparr>)"
  by (simp add: step_trial_def Let_def checkStep_fails)

lemma step_assess_fails:
  "isnan (vec_norm (vsub (xNew s) (x s))) \<or>
   dle (vec_norm (vsub (xNew s) (x s))) (stepFloor s) \<Longrightarrow>
     step_assess nH MODIFIED s =
       Inl (s\<lparr>state := insert FAILURE_MINSTEP (insert STEP_MODIFIED (state s)),
              h := vsub (xNew s) (x s)\<rparr>)"
  by (simp add: step_assess_def step_vet_def Let_def checkStep_fails stepFloor_def)

lemma step_branch_fails:
  "method s = BFGS \<Longrightarrow>
   \<not> dlt (QNew s) (Q s) \<or>
     (\<not> dgt (rho_BFGS s) (Fin (3 / 4)) \<and> dlt (rho_BFGS s) (Fin (1 / 4))) \<Longrightarrow>
   isnan (ddiv (delta s) (Fin 2)) \<or> dle (ddiv (delta s) (Fin 2)) (stepFloor s) \<Longrightarrow>
     step_branch lc s =
       Inl (s\<lparr>delta := ddiv (delta s) (Fin 2), state := insert FAILURE_MINTRUST (state s)\<rparr>)"
  by (auto simp: step_branch_def step_BFGS_def Let_def halve_delta_fails)

lemma init_nan:
  "Impl_init objLinear [NaN] ctrl1 =
     \<lparr>obj = objLinear, ctrl = ctrl1, method = LM, state = {}, count = 0, rank = 1,
      x = [NaN], xNew = [NaN], f = [NaN], fNew = [NaN], J = [[Fin 1]], JNew = [[Fin 1]],
      h = [Fin 0], y = [Fin 0], v = [Fin 0], A = [[Fin 2]], B = [[Fin 1]], g = [NaN],
      gNew = [Fin 0], normInfF = NaN, normInfG = NaN, Q = NaN, QNew = NaN,
      mu = Fin 1, nu = Fin 2, delta = Fin 1, functionCalls = 1, derivativeCalls = 1\<rparr>"
  by (simp add: Impl_init_def obj_simps ctrl1_simps Let_def la_defs upt1 cong: ev_cong)

lemma init_objClamp:
  "Impl_init objClamp [Fin 1] ctrl1 =
     \<lparr>obj = objClamp, ctrl = ctrl1, method = LM, state = {}, count = 0, rank = 1,
      x = [Fin 1], xNew = [Fin 1], f = [Fin 1], fNew = [Fin 1], J = [[Fin 1]], JNew = [[Fin 1]],
      h = [Fin 0], y = [Fin 0], v = [Fin 0], A = [[Fin 2]], B = [[Fin 1]], g = [Fin 1],
      gNew = [Fin 0], normInfF = Fin 1, normInfG = Fin 1, Q = Fin (1 / 2), QNew = Fin (1 / 2),
      mu = Fin 1, nu = Fin 2, delta = Fin 1, functionCalls = 1, derivativeCalls = 1\<rparr>"
  by (simp add: Impl_init_def obj_simps ctrl1_simps Let_def la_defs upt1 cong: ev_cong)

lemma init_objStuck:
  "Impl_init objStuck [Fin 0] ctrl1 =
     \<lparr>obj = objStuck, ctrl = ctrl1, method = LM, state = {}, count = 0, rank = 1,
      x = [Fin 0], xNew = [Fin 0], f = [Fin 1], fNew = [Fin 1], J = [[Fin 1]], JNew = [[Fin 1]],
      h = [Fin 0], y = [Fin 0], v = [Fin 0], A = [[Fin 2]], B = [[Fin 1]], g = [Fin 1],
      gNew = [Fin 0], normInfF = Fin 1, normInfG = Fin 1, Q = Fin (1 / 2), QNew = Fin (1 / 2),
      mu = Fin 1, nu = Fin 2, delta = Fin 1, functionCalls = 1, derivativeCalls = 1\<rparr>"
  by (simp add: Impl_init_def obj_simps ctrl1_simps Let_def la_defs upt1 cong: ev_cong)

lemmas guard_states = nan_start_def nan_solved_def clamp_start_def clamp_solved_def
  trust_start_def trust_solved_def trust_tried_def trust_assessed_def trust_locals_def
  init_nan init_objClamp init_objStuck

lemma guard_nan:
  "step_solve lib1 nan_start = Some nan_solved"
  "isnan (vec_norm (h nan_solved))"
  by (simp_all add: guard_states ev_simps cong: ev_cong)

lemma guard_clamp:
  "step_solve lib1 clamp_start = Some clamp_solved"
  "step_trial clamp_solved = Inr (Fin (1 / 2), MODIFIED, clamp_solved)"
  "dle (vec_norm (vsub (xNew clamp_solved) (x clamp_solved))) (stepFloor clamp_solved)"
  by (simp_all add: guard_states ev_simps cong: ev_cong)

lemma guard_trust:
  "step_solve lib1 trust_start = Some trust_solved"
  "step_trial trust_solved = Inr (Fin 1, VALID, trust_tried)"
  "step_assess (Fin 1) VALID trust_tried = Inr (trust_locals, trust_assessed)"
  "method trust_assessed = BFGS"
  "\<not> dlt (QNew trust_assessed) (Q trust_assessed)"
  "dle (ddiv (delta trust_assessed) (Fin 2)) (stepFloor trust_assessed)"
  by (simp_all add: guard_states ev_simps cong: ev_cong)

text \<open>
  C9. The guards have NaN-safe polarity. \<open>checkStep\<close> sets the failure bit and answers
  \<open>false\<close> whenever the tested quantity is NaN or is at most
  \<open>minStep * (x.norm() + minStep)\<close>. In \<open>step()\<close> this holds for \<open>normH\<close> at
  line 141, for the recomputed \<open>normH\<close> of a \<open>MODIFIED\<close> proposal at line 155, and for
  the halved \<open>delta\<close> at lines 190 and 194 (the BFGS branch halves \<open>delta\<close> unless
  \<open>QNew < Q\<close> with a gain ratio of at least 0.25): the step returns at once, in the
  state it had at the test with the failure bit added.
\<close>

theorem nan_safe_guards:
  "(isnan u \<or> dle u (stepFloor s) \<longrightarrow>
      checkStep u bad s = (False, s\<lparr>state := insert bad (state s)\<rparr>)) \<and>
   (step_solve lib s0 = Some s \<and>
    (isnan (vec_norm (h s)) \<or> dle (vec_norm (h s)) (stepFloor s)) \<longrightarrow>
      step lib s0 = Some (s\<lparr>state := insert FAILURE_MINSTEP (state s)\<rparr>)) \<and>
   (step_solve lib s0 = Some s1 \<and> step_trial s1 = Inr (nH, MODIFIED, s) \<and>
    (isnan (vec_norm (vsub (xNew s) (x s))) \<or>
     dle (vec_norm (vsub (xNew s) (x s))) (stepFloor s)) \<longrightarrow>
      step lib s0 =
        Some (s\<lparr>state := insert FAILURE_MINSTEP (insert STEP_MODIFIED (state s)),
                h := vsub (xNew s) (x s)\<rparr>)) \<and>
   (step_solve lib s0 = Some s1 \<and> step_trial s1 = Inr (nH, r, s2) \<and>
    step_assess nH r s2 = Inr (lc, s) \<and> method s = BFGS \<and>
    (\<not> dlt (QNew s) (Q s) \<or>
     (\<not> dgt (rho_BFGS s) (Fin (3 / 4)) \<and> dlt (rho_BFGS s) (Fin (1 / 4)))) \<and>
    (isnan (ddiv (delta s) (Fin 2)) \<or> dle (ddiv (delta s) (Fin 2)) (stepFloor s)) \<longrightarrow>
      step lib s0 =
        Some (s\<lparr>delta := ddiv (delta s) (Fin 2),
                state := insert FAILURE_MINTRUST (state s)\<rparr>))"
proof (intro conjI impI)
  assume "isnan u \<or> dle u (stepFloor s)"
  then show "checkStep u bad s = (False, s\<lparr>state := insert bad (state s)\<rparr>)"
    by (rule checkStep_fails)
next
  assume "step_solve lib s0 = Some s \<and>
    (isnan (vec_norm (h s)) \<or> dle (vec_norm (h s)) (stepFloor s))"
  then show "step lib s0 = Some (s\<lparr>state := insert FAILURE_MINSTEP (state s)\<rparr>)"
    by (simp add: step_def step_trial_fails)
next
  assume "step_solve lib s0 = Some s1 \<and> step_trial s1 = Inr (nH, MODIFIED, s) \<and>
    (isnan (vec_norm (vsub (xNew s) (x s))) \<or>
     dle (vec_norm (vsub (xNew s) (x s))) (stepFloor s))"
  then show "step lib s0 =
        Some (s\<lparr>state := insert FAILURE_MINSTEP (insert STEP_MODIFIED (state s)),
                h := vsub (xNew s) (x s)\<rparr>)"
    by (simp add: step_def step_assess_fails)
next
  assume "step_solve lib s0 = Some s1 \<and> step_trial s1 = Inr (nH, r, s2) \<and>
    step_assess nH r s2 = Inr (lc, s) \<and> method s = BFGS \<and>
    (\<not> dlt (QNew s) (Q s) \<or>
     (\<not> dgt (rho_BFGS s) (Fin (3 / 4)) \<and> dlt (rho_BFGS s) (Fin (1 / 4)))) \<and>
    (isnan (ddiv (delta s) (Fin 2)) \<or> dle (ddiv (delta s) (Fin 2)) (stepFloor s))"
  then show "step lib s0 =
        Some (s\<lparr>delta := ddiv (delta s) (Fin 2),
                state := insert FAILURE_MINTRUST (state s)\<rparr>)"
    by (simp add: step_def step_branch_fails)
qed

theorem nan_safe_guards_witness:
  "isnan NaN \<and>
   checkStep NaN FAILURE_MINTRUST clamp_start =
     (False, clamp_start\<lparr>state := insert FAILURE_MINTRUST (state clamp_start)\<rparr>) \<and>
   step_solve lib1 nan_start = Some nan_solved \<and> isnan (vec_norm (h nan_solved)) \<and>
   step lib1 nan_start = Some (nan_solved\<lparr>state := insert FAILURE_MINSTEP (state nan_solved)\<rparr>) \<and>
   step_solve lib1 clamp_start = Some clamp_solved \<and>
   step_trial clamp_solved = Inr (Fin (1 / 2), MODIFIED, clamp_solved) \<and>
   dle (vec_norm (vsub (xNew clamp_solved) (x clamp_solved))) (stepFloor clamp_solved) \<and>
   step lib1 clamp_start =
     Some (clamp_solved\<lparr>state := insert FAILURE_MINSTEP (insert STEP_MODIFIED (state clamp_solved)),
                        h := vsub (xNew clamp_solved) (x clamp_solved)\<rparr>) \<and>
   step_solve lib1 trust_start = Some trust_solved \<and>
   step_trial trust_solved = Inr (Fin 1, VALID, trust_tried) \<and>
   step_assess (Fin 1) VALID trust_tried = Inr (trust_locals, trust_assessed) \<and>
   method trust_assessed = BFGS \<and> \<not> dlt (QNew trust_assessed) (Q trust_assessed) \<and>
   dle (ddiv (delta trust_assessed) (Fin 2)) (stepFloor trust_assessed) \<and>
   step lib1 trust_start =
     Some (trust_assessed\<lparr>delta := ddiv (delta trust_assessed) (Fin 2),
                          state := insert FAILURE_MINTRUST (state trust_assessed)\<rparr>)"
proof -
  note a = nan_safe_guards [of NaN clamp_start FAILURE_MINTRUST]
  note b = nan_safe_guards [of _ nan_solved _ lib1 nan_start]
  note c = nan_safe_guards [of _ clamp_solved _ lib1 clamp_start clamp_solved "Fin (1 / 2)"]
  note d = nan_safe_guards [of _ trust_assessed _ lib1 trust_start trust_solved "Fin 1" VALID
      trust_tried trust_locals]
  from a have "checkStep NaN FAILURE_MINTRUST clamp_start =
     (False, clamp_start\<lparr>state := insert FAILURE_MINTRUST (state clamp_start)\<rparr>)" by simp
  moreover from b guard_nan have "step lib1 nan_start =
     Some (nan_solved\<lparr>state := insert FAILURE_MINSTEP (state nan_solved)\<rparr>)" by blast
  moreover from c guard_clamp have "step lib1 clamp_start =
     Some (clamp_solved\<lparr>state := insert FAILURE_MINSTEP (insert STEP_MODIFIED (state clamp_solved)),
                        h := vsub (xNew clamp_solved) (x clamp_solved)\<rparr>)" by blast
  moreover from d guard_trust have "step lib1 trust_start =
     Some (trust_assessed\<lparr>delta := ddiv (delta trust_assessed) (Fin 2),
                          state := insert FAILURE_MINTRUST (state trust_assessed)\<rparr>)" by blast
  ultimately show ?thesis using guard_nan guard_clamp guard_trust by simp
qed

section \<open>A proposal that cannot be evaluated\<close>

lemma dlt_PInf [simp]: "dlt PInf b = False"
  by (cases b) simp_all

lemma dmul_one [simp]: "dmul a (Fin 1) = a"
  by (cases a) simp_all

lemma init_fields:
  "method (Impl_init objective parameters control) = LM"
  "state (Impl_init objective parameters control) = {}"
  "nu (Impl_init objective parameters control) = Fin 2"
  "delta (Impl_init objective parameters control) = delta0 control"
  "functionCalls (Impl_init objective parameters control) = 1"
  "derivativeCalls (Impl_init objective parameters control) = 1"
  by (simp_all add: Impl_init_def Let_def cong: ev_cong)

lemma step_verdict_SomeD:
  assumes "step_verdict lib s = Some r"
  obtains rk u w p nH where
    "step_solve lib s = Some (s\<lparr>rank := rk, h := u\<rparr>)"
    "step_trial (s\<lparr>rank := rk, h := u\<rparr>) = Inr (nH, r, s\<lparr>rank := rk, h := w, xNew := p\<rparr>)"
proof -
  from assms obtain s1 nH s2 where a: "step_solve lib s = Some s1"
    and b: "step_trial s1 = Inr (nH, r, s2)"
    by (auto simp: step_verdict_def split: option.splits sum.splits)
  have c: "s1 = s\<lparr>rank := rank s1, h := h s1\<rparr>" by (rule step_solve_frame [OF a])
  have d: "s2 = s1\<lparr>h := h s2, xNew := xNew s2\<rparr>" by (rule step_trial_Inr [OF b])
  have e: "s2 = s\<lparr>rank := rank s1, h := h s2, xNew := xNew s2\<rparr>"
    by (subst d, subst c) simp
  show thesis
  proof (rule that)
    show "step_solve lib s = Some (s\<lparr>rank := rank s1, h := h s1\<rparr>)"
      using a c by simp
    show "step_trial (s\<lparr>rank := rank s1, h := h s1\<rparr>) =
        Inr (nH, r, s\<lparr>rank := rank s1, h := h s2, xNew := xNew s2\<rparr>)"
      using b c e by simp
  qed
qed

lemma LM_invalid_step:
  assumes "method s = LM" and "step_verdict lib s = Some INVALID"
  shows "\<exists>s'. step lib s = Some s' \<and> state s' = insert STEP_INVALID (state s) \<and>
           functionCalls s' = functionCalls s \<and> derivativeCalls s' = derivativeCalls s \<and>
           delta s' = delta s \<and> mu s' = dmul (mu s) (nu s) \<and> nu s' = dmul (nu s) (Fin 2) \<and>
           method s' = LM \<and> QNew s' = PInf \<and> x s' = x s \<and> Q s' = Q s"
proof -
  from assms(2) obtain rk u w p nH where
    a: "step_solve lib s = Some (s\<lparr>rank := rk, h := u\<rparr>)" and
    b: "step_trial (s\<lparr>rank := rk, h := u\<rparr>) = Inr (nH, INVALID, s\<lparr>rank := rk, h := w, xNew := p\<rparr>)"
    by (rule step_verdict_SomeD)
  show ?thesis
    using assms(1)
    by (simp add: step_def a b step_assess_def step_vet_def step_evaluate_def step_gradient_def
        step_branch_def step_LM_def step_finish_def Let_def cong: ev_cong)
qed


text \<open>
  C4 as the claim states it ends with the trust radius \<open>delta\<close> halved. On the problem
  \<open>objInvalid\<close>, whose \<open>tryStep\<close> refuses the first proposal of the fresh optimizer,
  \<open>delta\<close> is 1 before the step and 1 after it.
\<close>

theorem invalid_first_step_delta_counterexample:
  "step_verdict lib1 (Impl_init objInvalid [Fin 1] ctrl1) = Some INVALID \<and>
   map_option delta (step lib1 (Impl_init objInvalid [Fin 1] ctrl1)) = Some (Fin 1) \<and>
   map_option delta (step lib1 (Impl_init objInvalid [Fin 1] ctrl1)) \<noteq>
     Some (ddiv (delta (Impl_init objInvalid [Fin 1] ctrl1)) (Fin 2))"
  by (simp add: verdict_objInvalid) (simp add: init_objInvalid ev_simps cong: ev_cong)

text \<open>
  C4, amended. If \<open>tryStep\<close> returns \<open>INVALID\<close> on the first proposal of a freshly
  constructed optimizer (its method is LM), then \<open>step()\<close> returns with
  \<open>STEP_INVALID\<close> set and \<open>QNew\<close> infinite, it has called neither
  \<open>computeFunction\<close> nor \<open>computeDerivative\<close>, and it has shrunk the trust region of
  the LM method: \<open>mu\<close> is multiplied by \<open>nu = 2\<close> and \<open>nu\<close> is doubled to 4. The
  trust radius \<open>delta\<close> of the BFGS method keeps its initial value \<open>delta0\<close>.
\<close>

theorem invalid_first_step:
  "step_verdict lib (Impl_init objective parameters control) = Some INVALID \<Longrightarrow>
     \<exists>s'. step lib (Impl_init objective parameters control) = Some s' \<and>
          STEP_INVALID \<in> state s' \<and>
          functionCalls s' = functionCalls (Impl_init objective parameters control) \<and>
          derivativeCalls s' = derivativeCalls (Impl_init objective parameters control) \<and>
          QNew s' = PInf \<and> method s' = LM \<and>
          delta s' = delta0 control \<and>
          mu s' = dmul (mu (Impl_init objective parameters control)) (Fin 2) \<and>
          nu s' = Fin 4"
proof -
  assume a: "step_verdict lib (Impl_init objective parameters control) = Some INVALID"
  have "method (Impl_init objective parameters control) = LM" by (rule init_fields)
  from LM_invalid_step [OF this a] show ?thesis
    by (auto simp: init_fields)
qed

theorem invalid_first_step_witness:
  "step_verdict lib1 (Impl_init objInvalid [Fin 1] ctrl1) = Some INVALID \<and>
   (\<exists>s'. step lib1 (Impl_init objInvalid [Fin 1] ctrl1) = Some s' \<and>
         STEP_INVALID \<in> state s' \<and> functionCalls s' = 1 \<and> derivativeCalls s' = 1 \<and>
         QNew s' = PInf \<and> method s' = LM \<and> delta s' = Fin 1 \<and> mu s' = Fin 2 \<and>
         nu s' = Fin 4)"
  using invalid_first_step [of lib1 objInvalid "[Fin 1]" ctrl1] verdict_objInvalid
  by (simp add: init_objInvalid ctrl1_simps)


section \<open>Rejected LM steps and the switch to BFGS\<close>

lemma LM_rejects_D:
  assumes "LM_rejects lib s"
  obtains s1 nH r s2 lc s3 where "method s = LM" "step_solve lib s = Some s1"
    "step_trial s1 = Inr (nH, r, s2)" "r \<noteq> INVALID" "step_assess nH r s2 = Inr (lc, s3)"
    "\<not> dlt (QNew s3) (Q s3)"
proof -
  from assms have m: "method s = LM" by (simp add: LM_rejects_def)
  from assms obtain s1 where a: "step_solve lib s = Some s1"
    by (cases "step_solve lib s") (simp_all add: LM_rejects_def)
  from assms a obtain nH r s2 where b: "step_trial s1 = Inr (nH, r, s2)"
    by (cases "step_trial s1") (auto simp: LM_rejects_def)
  from assms a b have c: "r \<noteq> INVALID" by (simp add: LM_rejects_def)
  from assms a b obtain lc s3 where d: "step_assess nH r s2 = Inr (lc, s3)"
    by (cases "step_assess nH r s2") (auto simp: LM_rejects_def)
  from assms a b d have e: "\<not> dlt (QNew s3) (Q s3)" by (simp add: LM_rejects_def)
  from m a b c d e show thesis by (rule that)
qed

lemma step_trial_LM:
  assumes "step_trial s = Inr (nH, r, s')" and "method s = LM"
  shows "nH = vec_norm (h s) \<and> (\<exists>p. s' = s\<lparr>xNew := p\<rparr>)"
  using assms checkStep_cases [of "vec_norm (h s)" FAILURE_MINSTEP s]
  by (auto simp: step_trial_def Let_def split: prod.splits)

lemma step_assess_LM:
  assumes "step_assess nH r s = Inr (lc, s')" and "method s = LM" and "r \<noteq> INVALID"
    and "\<not> dlt (QNew s') (Q s')"
  shows "lc = \<lparr>normH = (if r = MODIFIED then vec_norm (h s') else nH), doStep = r,
               normInfGNew = Fin 0, isBetter = False, shouldSwitchMethod = False\<rparr> \<and>
         method s' = LM \<and> mu s' = mu s \<and> nu s' = nu s \<and>
         delta s' = delta s \<and> f s' = f s \<and> ctrl s' = ctrl s \<and> obj s' = obj s \<and> A s' = A s \<and>
         (r = VALID \<longrightarrow> h s' = h s)"
proof (cases r)
  case VALID
  with assms show ?thesis
    by (auto simp: step_assess_def step_vet_def step_evaluate_def step_gradient_def Let_def
        split: if_splits)
next
  case MODIFIED
  with assms checkStep_cases [of "vec_norm (vsub (xNew s) (x s))" FAILURE_MINSTEP
          "s\<lparr>state := insert STEP_MODIFIED (state s), h := vsub (xNew s) (x s)\<rparr>"]
  show ?thesis
    by (auto simp: step_assess_def step_vet_def step_evaluate_def step_gradient_def Let_def
        split: if_splits)
next
  case INVALID
  with assms show ?thesis by simp
qed


lemma step_update_B_fields:
  "mu (step_update_B s) = mu s" "nu (step_update_B s) = nu s"
  "method (step_update_B s) = method s" "delta (step_update_B s) = delta s"
  "f (step_update_B s) = f s" "ctrl (step_update_B s) = ctrl s" "h (step_update_B s) = h s"
  "A (step_update_B s) = A s" "Q (step_update_B s) = Q s" "x (step_update_B s) = x s"
  "gNew (step_update_B s) = gNew s" "JNew (step_update_B s) = JNew s"
  "fNew (step_update_B s) = fNew s" "QNew (step_update_B s) = QNew s"
  by (simp_all add: step_update_B_def Let_def)

lemma LM_rejects_step:
  assumes "LM_rejects lib s"
  shows "\<exists>s'. step lib s = Some s' \<and> mu s' = dmul (mu s) (nu s) \<and>
           nu s' = dmul (nu s) (Fin 2) \<and>
           (dge (nu s') (Fin 32) \<longrightarrow>
              method s' = BFGS \<and>
              delta s' = dmax (dmul (dmul (Fin (3 / 2)) (minStep (ctrl s)))
                                 (dadd (squaredNorm (f s)) (minStep (ctrl s))))
                              (dmul (Fin (2 / 10)) (vec_norm (h s')))) \<and>
           (\<not> dge (nu s') (Fin 32) \<longrightarrow> method s' = LM \<and> delta s' = delta s)"
proof -
  from assms obtain s1 nH r s2 lc s3 where m: "method s = LM"
    and a: "step_solve lib s = Some s1" and b: "step_trial s1 = Inr (nH, r, s2)"
    and c: "r \<noteq> INVALID" and d: "step_assess nH r s2 = Inr (lc, s3)"
    and e: "\<not> dlt (QNew s3) (Q s3)"
    by (rule LM_rejects_D)
  from step_solve_frame [OF a] obtain rk u where s1: "s1 = s\<lparr>rank := rk, h := u\<rparr>" by blast
  with m have m1: "method s1 = LM" by simp
  from step_trial_LM [OF b m1] obtain p where nH: "nH = vec_norm (h s1)"
    and s2: "s2 = s1\<lparr>xNew := p\<rparr>" by blast
  from s2 m1 have m2: "method s2 = LM" by simp
  note as = step_assess_LM [OF d m2 c e]
  from as have lc: "lc = \<lparr>normH = (if r = MODIFIED then vec_norm (h s3) else nH), doStep = r,
               normInfGNew = Fin 0, isBetter = False, shouldSwitchMethod = False\<rparr>" by simp
  have nrm: "normH lc = vec_norm (h s3)"
  proof (cases r)
    case VALID
    with as have "h s3 = h s2" by simp
    with s2 nH lc VALID show ?thesis by simp
  next
    case MODIFIED
    with lc show ?thesis by simp
  next
    case INVALID
    with c show ?thesis by simp
  qed
  from as s1 s2 have f3: "method s3 = LM" "mu s3 = mu s" "nu s3 = nu s" "delta s3 = delta s"
    "f s3 = f s" "ctrl s3 = ctrl s" by simp_all
  have st: "step lib s = Some (step_finish (lc\<lparr>shouldSwitchMethod := dge (dmul (nu s) (Fin 2)) (Fin 32)\<rparr>)
      (s3\<lparr>A := diagonal_add (getParameterSize (obj s3)) (A s3) (dmul (mu s) (dsub (nu s) (Fin 1))),
          mu := dmul (mu s) (nu s), nu := dmul (nu s) (Fin 2)\<rparr>))"
    using a b d e f3 by (simp add: step_def step_branch_def step_LM_def Let_def)
  show ?thesis
    unfolding st using c lc nrm f3
    by (simp add: step_finish_def Let_def step_update_B_fields step_switch_def)
qed


lemma LM_rejects_four:
  assumes "nu s = Fin 2" and "LM_rejects_n lib 4 s"
  shows "map_option method (steps lib 3 s) = Some LM \<and>
         map_option method (steps lib 4 s) = Some BFGS \<and>
         map_option nu (steps lib 4 s) = Some (Fin 32)"
proof -
  from assms(2) have t0: "LM_rejects_n lib (Suc (Suc (Suc (Suc 0)))) s"
    by (simp add: eval_nat_numeral)
  then have r0: "LM_rejects lib s" by simp
  from LM_rejects_step [OF r0] assms(1) obtain s1 where s1: "step lib s = Some s1"
    and n1: "nu s1 = Fin 4" and m1: "method s1 = LM" by (auto simp: dge_def)
  from t0 s1 have t1: "LM_rejects_n lib (Suc (Suc (Suc 0))) s1" by simp
  then have r1: "LM_rejects lib s1" by simp
  from LM_rejects_step [OF r1] n1 obtain s2 where s2: "step lib s1 = Some s2"
    and n2: "nu s2 = Fin 8" and m2: "method s2 = LM" by (auto simp: dge_def)
  from t1 s2 have t2: "LM_rejects_n lib (Suc (Suc 0)) s2" by simp
  then have r2: "LM_rejects lib s2" by simp
  from LM_rejects_step [OF r2] n2 obtain s3 where s3: "step lib s2 = Some s3"
    and n3: "nu s3 = Fin 16" and m3: "method s3 = LM" by (auto simp: dge_def)
  from t2 s3 have r3: "LM_rejects lib s3" by simp
  from LM_rejects_step [OF r3] n3 obtain s4 where s4: "step lib s3 = Some s4"
    and n4: "nu s4 = Fin 32" and m4: "method s4 = BFGS" by (auto simp: dge_def)
  from s1 s2 s3 s4 m3 m4 n4 show ?thesis by (simp add: eval_nat_numeral)
qed

lemma LM_rejects_n_Suc:
  "LM_rejects_n lib (Suc n) s \<longleftrightarrow>
     LM_rejects_n lib n s \<and>
     (case steps lib n s of None \<Rightarrow> False | Some s' \<Rightarrow> LM_rejects lib s')"
proof (induction n arbitrary: s)
  case 0
  show ?case by (auto simp: LM_rejects_def step_def split: option.splits)
next
  case (Suc n)
  show ?case
  proof (cases "step lib s")
    case None
    then show ?thesis by simp
  next
    case (Some s1)
    have "LM_rejects_n lib (Suc (Suc n)) s \<longleftrightarrow> LM_rejects lib s \<and> LM_rejects_n lib (Suc n) s1"
      using Some by simp
    also have "\<dots> \<longleftrightarrow> LM_rejects lib s \<and> LM_rejects_n lib n s1 \<and>
       (case steps lib n s1 of None \<Rightarrow> False | Some s' \<Rightarrow> LM_rejects lib s')"
      using Suc.IH [of s1] by simp
    also have "\<dots> \<longleftrightarrow> LM_rejects_n lib (Suc n) s \<and>
       (case steps lib (Suc n) s of None \<Rightarrow> False | Some s' \<Rightarrow> LM_rejects lib s')"
      using Some by auto
    finally show ?thesis .
  qed
qed

lemma LM_rejects_not_five:
  assumes "nu s = Fin 2"
  shows "\<not> LM_rejects_n lib 5 s"
proof
  assume "LM_rejects_n lib 5 s"
  then have "LM_rejects_n lib (Suc 4) s" by simp
  then have four: "LM_rejects_n lib 4 s"
    and last: "case steps lib 4 s of None \<Rightarrow> False | Some s' \<Rightarrow> LM_rejects lib s'"
    unfolding LM_rejects_n_Suc by simp_all
  from last obtain s4 where s4: "steps lib 4 s = Some s4" and "LM_rejects lib s4"
    by (auto split: option.splits)
  then have "method s4 = LM" by (simp add: LM_rejects_def)
  moreover from LM_rejects_four [OF assms four] s4 have "method s4 = BFGS" by simp
  ultimately show False by simp
qed

lemma stuck_rejects:
  "LM_rejects_n lib1 4 (Impl_init objStuck [Fin 0] ctrl1)"
  by (simp add: init_objStuck eval_nat_numeral LM_rejects_def ev_simps cong: ev_cong)

lemma stuck_steps:
  "steps lib1 4 (Impl_init objStuck [Fin 0] ctrl1) =
     Some \<lparr>obj = objStuck, ctrl = ctrl1, method = BFGS, state = {}, count = 0,
         rank = 1, x = [Fin 0], xNew = [Fin (- (1 / 65))], f = [Fin 1],
         fNew = [Fin 2], J = [[Fin 1]], JNew = [[Fin 1]],
         h = [Fin (- (1 / 65))], y = [Fin (- (66 / 65))],
         v = [Fin (- (2 / 13))], A = [[Fin 1025]], B = [[Fin 66]],
         g = [Fin 1], gNew = [Fin 0], normInfF = Fin 1, normInfG = Fin 1,
         Q = Fin (1 / 2), QNew = Fin 2, mu = Fin 1024, nu = Fin 32,
         delta = Fin (387 / 32768), functionCalls = 5, derivativeCalls = 5\<rparr>"
  by (simp add: init_objStuck eval_nat_numeral ev_simps cong: ev_cong)

lemma invalid_steps3:
  "steps lib1 3 (Impl_init objInvalid [Fin 1] ctrl1) =
     Some \<lparr>obj = objInvalid, ctrl = ctrl1, method = LM, state = {STEP_INVALID},
         count = 0, rank = 1, x = [Fin 1], xNew = [Fin (8 / 9)], f = [Fin 1],
         fNew = [Fin 1], J = [[Fin 1]], JNew = [[Fin 1]],
         h = [Fin (- (1 / 9))], y = [Fin 0], v = [Fin 0], A = [[Fin 65]],
         B = [[Fin 1]], g = [Fin 1], gNew = [Fin 0], normInfF = Fin 1,
         normInfG = Fin 1, Q = Fin (1 / 2), QNew = PInf, mu = Fin 64,
         nu = Fin 16, delta = Fin 1, functionCalls = 1, derivativeCalls = 1\<rparr>"
  by (simp add: init_objInvalid eval_nat_numeral ev_simps cong: ev_cong)

lemma steps_Suc_end:
  "steps lib (Suc n) s = (case steps lib n s of None \<Rightarrow> None | Some s' \<Rightarrow> step lib s')"
proof (induction n arbitrary: s)
  case 0
  show ?case by (simp split: option.splits)
next
  case (Suc n)
  show ?case
  proof (cases "step lib s")
    case None
    then show ?thesis by simp
  next
    case (Some s1)
    then have "steps lib (Suc (Suc n)) s = steps lib (Suc n) s1" by simp
    also have "\<dots> = (case steps lib n s1 of None \<Rightarrow> None | Some s' \<Rightarrow> step lib s')"
      by (rule Suc.IH)
    also have "steps lib n s1 = steps lib (Suc n) s" using Some by simp
    finally show ?thesis .
  qed
qed

lemma invalid_steps4:
  "steps lib1 4 (Impl_init objInvalid [Fin 1] ctrl1) =
     Some \<lparr>obj = objInvalid, ctrl = ctrl1, method = LM, state = {STEP_INVALID},
         count = 0, rank = 1, x = [Fin 1], xNew = [Fin (64 / 65)], f = [Fin 1],
         fNew = [Fin 1], J = [[Fin 1]], JNew = [[Fin 1]],
         h = [Fin (- (1 / 65))], y = [Fin 0], v = [Fin 0], A = [[Fin 1025]],
         B = [[Fin 1]], g = [Fin 1], gNew = [Fin 0], normInfF = Fin 1,
         normInfG = Fin 1, Q = Fin (1 / 2), QNew = PInf, mu = Fin 1024,
         nu = Fin 32, delta = Fin 1, functionCalls = 1, derivativeCalls = 1\<rparr>"
proof -
  have "steps lib1 4 (Impl_init objInvalid [Fin 1] ctrl1) =
      (case steps lib1 3 (Impl_init objInvalid [Fin 1] ctrl1) of
         None \<Rightarrow> None | Some s' \<Rightarrow> step lib1 s')"
    using steps_Suc_end [of lib1 3] by (simp add: eval_nat_numeral)
  then show ?thesis
    by (simp add: invalid_steps3 ev_simps cong: ev_cong)
qed

lemma invalid_verdict4:
  "Option.bind (steps lib1 3 (Impl_init objInvalid [Fin 1] ctrl1)) (step_verdict lib1) =
     Some INVALID"
  by (simp add: invalid_steps3 step_verdict_def ev_simps cong: ev_cong)

text \<open>
  C5 as the claim states it fails in two places. It counts five consecutive rejected LM steps
  from \<open>nu = 2\<close> to the switch: on \<open>objStuck\<close> the first four steps are rejected LM
  steps and the method is BFGS after the fourth, so that a fifth rejected LM step never
  follows. And it lets every rejected LM step whose doubled \<open>nu\<close> reaches 32 switch: on
  \<open>objInvalid\<close> the fourth step is an LM step whose proposal is \<open>INVALID\<close>, so that
  \<open>QNew = +\<infinity> \<ge> Q\<close>; it doubles \<open>nu\<close> from 16 to 32 and returns with the method
  still LM.
\<close>

theorem LM_rejection_counterexample:
  "nu (Impl_init objStuck [Fin 0] ctrl1) = Fin 2 \<and>
   LM_rejects_n lib1 4 (Impl_init objStuck [Fin 0] ctrl1) \<and>
   map_option method (steps lib1 4 (Impl_init objStuck [Fin 0] ctrl1)) = Some BFGS \<and>
   \<not> LM_rejects_n lib1 5 (Impl_init objStuck [Fin 0] ctrl1) \<and>
   map_option method (steps lib1 3 (Impl_init objInvalid [Fin 1] ctrl1)) = Some LM \<and>
   Option.bind (steps lib1 3 (Impl_init objInvalid [Fin 1] ctrl1)) (step_verdict lib1) =
     Some INVALID \<and>
   map_option QNew (steps lib1 4 (Impl_init objInvalid [Fin 1] ctrl1)) = Some PInf \<and>
   map_option Q (steps lib1 4 (Impl_init objInvalid [Fin 1] ctrl1)) = Some (Fin (1 / 2)) \<and>
   dge PInf (Fin (1 / 2)) \<and>
   map_option nu (steps lib1 3 (Impl_init objInvalid [Fin 1] ctrl1)) = Some (Fin 16) \<and>
   map_option nu (steps lib1 4 (Impl_init objInvalid [Fin 1] ctrl1)) = Some (Fin 32) \<and>
   dge (Fin 32) (Fin 32) \<and>
   map_option method (steps lib1 4 (Impl_init objInvalid [Fin 1] ctrl1)) = Some LM"
proof (intro conjI)
  show "nu (Impl_init objStuck [Fin 0] ctrl1) = Fin 2" by (rule init_fields)
  then show "\<not> LM_rejects_n lib1 5 (Impl_init objStuck [Fin 0] ctrl1)"
    by (rule LM_rejects_not_five)
  show "LM_rejects_n lib1 4 (Impl_init objStuck [Fin 0] ctrl1)" by (rule stuck_rejects)
  show "Option.bind (steps lib1 3 (Impl_init objInvalid [Fin 1] ctrl1)) (step_verdict lib1) =
     Some INVALID" by (rule invalid_verdict4)
qed (simp_all add: stuck_steps invalid_steps3 invalid_steps4 dge_def)

text \<open>
  C5, amended. Every LM step whose proposal is evaluated (\<open>tryStep\<close> did not return
  \<open>INVALID\<close>) and rejected (\<open>QNew < Q\<close> is false) multiplies \<open>mu\<close> by \<open>nu\<close> and
  then doubles \<open>nu\<close>; whenever the doubled \<open>nu\<close> is at least 32 the method is BFGS
  when \<open>step()\<close> returns, with \<open>delta = max(1.5 * minStep * (f.squaredNorm() + minStep),
  0.2 * normH)\<close>, and otherwise method and \<open>delta\<close> are unchanged. Starting from
  \<open>nu = 2\<close> the switch happens in the fourth of four consecutive such steps.
\<close>

theorem LM_rejection_switch:
  "(LM_rejects lib s \<longrightarrow>
      (\<exists>s'. step lib s = Some s' \<and> mu s' = dmul (mu s) (nu s) \<and>
            nu s' = dmul (nu s) (Fin 2) \<and>
            (dge (nu s') (Fin 32) \<longrightarrow>
               method s' = BFGS \<and>
               delta s' = dmax (dmul (dmul (Fin (3 / 2)) (minStep (ctrl s)))
                                  (dadd (squaredNorm (f s)) (minStep (ctrl s))))
                               (dmul (Fin (2 / 10)) (vec_norm (h s')))) \<and>
            (\<not> dge (nu s') (Fin 32) \<longrightarrow> method s' = LM \<and> delta s' = delta s))) \<and>
   (nu s = Fin 2 \<and> LM_rejects_n lib 4 s \<longrightarrow>
      map_option method (steps lib 3 s) = Some LM \<and>
      map_option method (steps lib 4 s) = Some BFGS \<and>
      map_option nu (steps lib 4 s) = Some (Fin 32))"
  using LM_rejects_step [of lib s] LM_rejects_four [of s lib] by blast

theorem LM_rejection_switch_witness:
  "LM_rejects lib1 (Impl_init objStuck [Fin 0] ctrl1) \<and>
   nu (Impl_init objStuck [Fin 0] ctrl1) = Fin 2 \<and>
   LM_rejects_n lib1 4 (Impl_init objStuck [Fin 0] ctrl1) \<and>
   (\<exists>s'. step lib1 (Impl_init objStuck [Fin 0] ctrl1) = Some s' \<and> mu s' = Fin 2 \<and>
         nu s' = Fin 4 \<and> method s' = LM \<and> delta s' = Fin 1) \<and>
   map_option method (steps lib1 3 (Impl_init objStuck [Fin 0] ctrl1)) = Some LM \<and>
   map_option method (steps lib1 4 (Impl_init objStuck [Fin 0] ctrl1)) = Some BFGS \<and>
   map_option nu (steps lib1 4 (Impl_init objStuck [Fin 0] ctrl1)) = Some (Fin 32)"
proof -
  have r: "LM_rejects lib1 (Impl_init objStuck [Fin 0] ctrl1)"
    using stuck_rejects by (simp add: eval_nat_numeral)
  have n: "nu (Impl_init objStuck [Fin 0] ctrl1) = Fin 2" by (rule init_fields)
  from LM_rejection_switch [of lib1 "Impl_init objStuck [Fin 0] ctrl1"] r n stuck_rejects
  show ?thesis
    by (auto simp: init_objStuck dge_def)
qed


section \<open>The flag of acceptance after a step that returns early\<close>

lemma linear_step1:
  "step lib1 (Impl_init objLinear [Fin 1] ctrl1) =
     Some \<lparr>obj = objLinear, ctrl = ctrl1, method = LM, state = {STEP_ACCEPTED},
         count = 0, rank = 1, x = [Fin (1 / 2)], xNew = [Fin (1 / 2)],
         f = [Fin (1 / 2)], fNew = [Fin (1 / 2)], J = [[Fin 1]],
         JNew = [[Fin 1]], h = [Fin (- (1 / 2))], y = [Fin (- 1)],
         v = [Fin (- (1 / 2))], A = [[Fin (4 / 3)]], B = [[Fin 2]],
         g = [Fin (1 / 2)], gNew = [Fin (1 / 2)], normInfF = Fin (1 / 2),
         normInfG = Fin (1 / 2), Q = Fin (1 / 8), QNew = Fin (1 / 8),
         mu = Fin (1 / 3), nu = Fin 2, delta = Fin 1,
         functionCalls = 2, derivativeCalls = 2\<rparr>"
  by (simp add: init_objLinear ev_simps cong: ev_cong)

lemma linear_steps2:
  "steps lib1 2 (Impl_init objLinear [Fin 1] ctrl1) =
     Some \<lparr>obj = objLinear, ctrl = ctrl1, method = LM,
         state = {STEP_INVALID, STEP_ACCEPTED}, count = 0, rank = 1,
         x = [Fin (1 / 2)], xNew = [Fin (1 / 8)], f = [Fin (1 / 2)],
         fNew = [Fin (1 / 2)], J = [[Fin 1]], JNew = [[Fin 1]],
         h = [Fin (- (3 / 8))], y = [Fin (- 1)], v = [Fin (- (1 / 2))],
         A = [[Fin (5 / 3)]], B = [[Fin 2]], g = [Fin (1 / 2)],
         gNew = [Fin (1 / 2)], normInfF = Fin (1 / 2),
         normInfG = Fin (1 / 2), Q = Fin (1 / 8), QNew = PInf,
         mu = Fin (2 / 3), nu = Fin 4, delta = Fin 1,
         functionCalls = 2, derivativeCalls = 2\<rparr>"
proof -
  have "steps lib1 2 (Impl_init objLinear [Fin 1] ctrl1) =
      (case step lib1 (Impl_init objLinear [Fin 1] ctrl1) of
         None \<Rightarrow> None | Some s' \<Rightarrow> step lib1 s')"
    by (simp add: numeral_2_eq_2 split: option.splits)
  then show ?thesis
    by (simp add: linear_step1) (simp add: ev_simps cong: ev_cong)
qed

lemma linear_verdict2:
  "Option.bind (step lib1 (Impl_init objLinear [Fin 1] ctrl1)) (step_verdict lib1) =
     Some INVALID"
  by (simp add: linear_step1) (simp add: step_verdict_def ev_simps cong: ev_cong)

text \<open>
  C2 says that \<open>STEP_ACCEPTED\<close> is cleared on every step whose acceptance test did not
  hold, also when the step ends early. On \<open>objLinear\<close> the first step is accepted and
  sets the flag. In the second step \<open>tryStep\<close> returns \<open>INVALID\<close>: nothing is
  evaluated or committed (\<open>x\<close> is unchanged), the step returns at line 219, before the
  lines 258--262 that set or clear the flag, and \<open>STEP_ACCEPTED\<close> is still set in the
  state it returns.
\<close>

theorem stale_STEP_ACCEPTED:
  "map_option state (step lib1 (Impl_init objLinear [Fin 1] ctrl1)) = Some {STEP_ACCEPTED} \<and>
   Option.bind (step lib1 (Impl_init objLinear [Fin 1] ctrl1)) (step_verdict lib1) =
     Some INVALID \<and>
   map_option x (steps lib1 2 (Impl_init objLinear [Fin 1] ctrl1)) =
     map_option x (step lib1 (Impl_init objLinear [Fin 1] ctrl1)) \<and>
   map_option state (steps lib1 2 (Impl_init objLinear [Fin 1] ctrl1)) =
     Some {STEP_INVALID, STEP_ACCEPTED}"
proof (intro conjI)
  show "Option.bind (step lib1 (Impl_init objLinear [Fin 1] ctrl1)) (step_verdict lib1) =
     Some INVALID" by (rule linear_verdict2)
qed (simp_all add: linear_step1 linear_steps2)

text \<open>
  C1 says that \<open>Q\<close> has strictly decreased whenever \<open>STEP_ACCEPTED\<close> is set after a
  step taken with the LM method. After the second step of the same run the method is LM
  and the flag, left over from the first step, is set, while \<open>Q\<close> is \<open>1/8\<close> before
  and after the step.
\<close>

theorem stale_STEP_ACCEPTED_not_strict:
  "map_option method (step lib1 (Impl_init objLinear [Fin 1] ctrl1)) = Some LM \<and>
   map_option Q (step lib1 (Impl_init objLinear [Fin 1] ctrl1)) = Some (Fin (1 / 8)) \<and>
   map_option Q (steps lib1 2 (Impl_init objLinear [Fin 1] ctrl1)) = Some (Fin (1 / 8)) \<and>
   map_option state (steps lib1 2 (Impl_init objLinear [Fin 1] ctrl1)) =
     Some {STEP_INVALID, STEP_ACCEPTED} \<and>
   \<not> dlt (Fin (1 / 8)) (Fin (1 / 8))"
  by (simp add: linear_step1 linear_steps2)

section \<open>The trial gradient in the update of B\<close>

lemma stuck_step1:
  "step lib1 (Impl_init objStuck [Fin 0] ctrl1) =
     Some \<lparr>obj = objStuck, ctrl = ctrl1, method = LM, state = {}, count = 0,
         rank = 1, x = [Fin 0], xNew = [Fin (- (1 / 2))], f = [Fin 1],
         fNew = [Fin 2], J = [[Fin 1]], JNew = [[Fin 1]],
         h = [Fin (- (1 / 2))], y = [Fin (- (3 / 2))], v = [Fin (- (1 / 2))],
         A = [[Fin 3]], B = [[Fin 3]], g = [Fin 1], gNew = [Fin 0],
         normInfF = Fin 1, normInfG = Fin 1, Q = Fin (1 / 2), QNew = Fin 2,
         mu = Fin 2, nu = Fin 4, delta = Fin 1, functionCalls = 2,
         derivativeCalls = 2\<rparr>"
  by (simp add: init_objStuck ev_simps cong: ev_cong)

lemma stuck_rejects1: "LM_rejects lib1 (Impl_init objStuck [Fin 0] ctrl1)"
  using stuck_rejects by (simp add: eval_nat_numeral)

text \<open>
  C6 says that the update vector is \<open>y = JNew\<^sup>T (JNew h) + (gNew - g)\<close> with
  \<open>gNew = JNew\<^sup>T fNew\<close> at the current proposal, on rejected steps as well. The first
  step on \<open>objStuck\<close> is an evaluated and rejected LM step. Line 176 skips the
  computation of \<open>gNew\<close>, which keeps its initial value 0 where \<open>JNew\<^sup>T fNew\<close> is 2;
  line 221 computes \<open>y = -3/2\<close> from it where the claim's formula gives \<open>1/2\<close>. With
  the claim's \<open>y\<close> the curvature test \<open>h\<^sup>T y > 0\<close> fails and \<open>B\<close> would stay 1; the
  step updates \<open>B\<close> to 3.
\<close>

theorem stale_trial_gradient:
  "LM_rejects lib1 (Impl_init objStuck [Fin 0] ctrl1) \<and>
   map_option JNew (step lib1 (Impl_init objStuck [Fin 0] ctrl1)) = Some [[Fin 1]] \<and>
   map_option fNew (step lib1 (Impl_init objStuck [Fin 0] ctrl1)) = Some [Fin 2] \<and>
   adjoint_vec 1 [[Fin 1]] [Fin 2] = [Fin 2] \<and>
   map_option gNew (step lib1 (Impl_init objStuck [Fin 0] ctrl1)) = Some [Fin 0] \<and>
   map_option h (step lib1 (Impl_init objStuck [Fin 0] ctrl1)) = Some [Fin (- (1 / 2))] \<and>
   g (Impl_init objStuck [Fin 0] ctrl1) = [Fin 1] \<and>
   vadd (adjoint_vec 1 [[Fin 1]] (mat_vec [[Fin 1]] [Fin (- (1 / 2))]))
        (vsub [Fin 2] [Fin 1]) = [Fin (1 / 2)] \<and>
   map_option y (step lib1 (Impl_init objStuck [Fin 0] ctrl1)) = Some [Fin (- (3 / 2))] \<and>
   \<not> dgt (dot [Fin (- (1 / 2))] [Fin (1 / 2)]) (Fin 0) \<and>
   B (Impl_init objStuck [Fin 0] ctrl1) = [[Fin 1]] \<and>
   map_option B (step lib1 (Impl_init objStuck [Fin 0] ctrl1)) = Some [[Fin 3]]"
proof (intro conjI)
  show "LM_rejects lib1 (Impl_init objStuck [Fin 0] ctrl1)" by (rule stuck_rejects1)
qed (simp_all add: stuck_step1, simp_all add: init_objStuck la_defs upt1)


section \<open>Finite vectors as real vectors\<close>

lemma isfinite_iff: "isfinite c \<longleftrightarrow> (\<exists>a. c = Fin a)"
  by (cases c) simp_all

lemma Fin_to_real: "isfinite c \<Longrightarrow> Fin (to_real c) = c"
  by (cases c) simp_all

lemma finite_vec_nth: "finite_vec n u \<Longrightarrow> i < n \<Longrightarrow> isfinite (u ! i)"
  by (simp add: finite_vec_def list_all_length)

lemma finite_vec_length: "finite_vec n u \<Longrightarrow> length u = n"
  by (simp add: finite_vec_def)

lemma finite_mat_nth: "finite_mat n M \<Longrightarrow> i < n \<Longrightarrow> finite_vec n (M ! i)"
  by (simp add: finite_mat_def list_all_length)

lemma vsum_finite:
  "list_all isfinite u \<Longrightarrow> vsum u = Fin (sum_list (map to_real u))"
  by (induction u) (auto simp: vsum_def isfinite_iff)

lemma vsum_map_finite:
  assumes "\<And>k. k < n \<Longrightarrow> isfinite (c k)"
  shows "vsum (map c [0..<n]) = Fin (\<Sum>k<n. to_real (c k))"
proof -
  have "list_all isfinite (map c [0..<n])"
    using assms by (simp add: list_all_iff)
  then have "vsum (map c [0..<n]) = Fin (sum_list (map to_real (map c [0..<n])))"
    by (rule vsum_finite)
  also have "sum_list (map to_real (map c [0..<n])) = (\<Sum>k<n. to_real (c k))"
    by (simp add: sum_list_sum_nth atLeast0LessThan)
  finally show ?thesis .
qed

lemma map2_nth_upt:
  "length u = n \<Longrightarrow> length w = n \<Longrightarrow> map2 c u w = map (\<lambda>k. c (u ! k) (w ! k)) [0..<n]"
  by (rule nth_equalityI) simp_all

lemma dot_finite:
  assumes "finite_vec n u" and "finite_vec n w"
  shows "dot u w = Fin (\<Sum>k<n. to_real (u ! k) * to_real (w ! k))"
proof -
  have "dot u w = vsum (map (\<lambda>k. dmul (u ! k) (w ! k)) [0..<n])"
    using assms by (simp add: dot_def map2_nth_upt finite_vec_def)
  also have "\<dots> = Fin (\<Sum>k<n. to_real (dmul (u ! k) (w ! k)))"
    using assms by (intro vsum_map_finite) (auto simp: isfinite_iff dest!: finite_vec_nth)
  also have "(\<Sum>k<n. to_real (dmul (u ! k) (w ! k))) = (\<Sum>k<n. to_real (u ! k) * to_real (w ! k))"
    using assms by (intro sum.cong refl) (auto simp: isfinite_iff dest!: finite_vec_nth)
  finally show ?thesis .
qed

lemma identity_row_finite: "i < n \<Longrightarrow> finite_vec n (identity_mat n ! i)"
  by (simp add: identity_mat_def finite_vec_def list_all_iff)

lemma mat_vec_identity:
  assumes "finite_vec n u"
  shows "mat_vec (identity_mat n) u = u"
proof (rule nth_equalityI)
  show "length (mat_vec (identity_mat n) u) = length u"
    using assms by (simp add: mat_vec_def identity_mat_def finite_vec_def)
next
  fix i assume "i < length (mat_vec (identity_mat n) u)"
  then have i: "i < n" by (simp add: mat_vec_def identity_mat_def)
  have "mat_vec (identity_mat n) u ! i = dot (identity_mat n ! i) u"
    using i by (simp add: mat_vec_def identity_mat_def)
  also have "\<dots> = Fin (\<Sum>k<n. to_real (identity_mat n ! i ! k) * to_real (u ! k))"
    by (rule dot_finite [OF identity_row_finite [OF i] assms])
  also have "(\<Sum>k<n. to_real (identity_mat n ! i ! k) * to_real (u ! k)) =
      (\<Sum>k<n. if k = i then to_real (u ! k) else 0)"
    using i by (intro sum.cong refl) (simp add: identity_mat_def)
  also have "\<dots> = to_real (u ! i)" using i by simp
  finally show "mat_vec (identity_mat n) u ! i = u ! i"
    using finite_vec_nth [OF assms i] by (simp add: Fin_to_real)
qed


section \<open>The rank reported by the eigen-decomposition solve\<close>

lemma skip_small_bounds:
  "i \<le> rk \<Longrightarrow> i \<le> skip_small evals threshold rk i \<and> skip_small evals threshold rk i \<le> rk"
proof (induction evals threshold rk i rule: skip_small.induct)
  case (1 evals threshold rk i)
  show ?case
  proof (cases "i < rk \<and> dlt (evals ! nat i) threshold")
    case True
    with "1.IH" have "i + 1 \<le> skip_small evals threshold rk (i + 1) \<and>
        skip_small evals threshold rk (i + 1) \<le> rk" by simp
    with True show ?thesis by (subst (1 2) skip_small.simps) simp
  next
    case False
    with "1.prems" show ?thesis by (subst (1 2) skip_small.simps) auto
  qed
qed

lemma solve_eigen_rank:
  assumes "\<not> useCholesky (ctrl s)" and "0 < getParameterSize (obj s)"
    and "getParameterSize (obj s) \<le> length (fst (eigh lib M))"
  shows "\<exists>s'. solve lib M s = Some s' \<and> 0 \<le> rank s' \<and> rank s' \<le> int (getParameterSize (obj s))"
proof -
  obtain evals evecs where e: "eigh lib M = (evals, evecs)" by (cases "eigh lib M")
  have b: "0 \<le> skip_small evals (dmul (evals ! nat (int (getParameterSize (obj s)) - 1)) epsilon)
                 (int (getParameterSize (obj s))) 0 \<and>
           skip_small evals (dmul (evals ! nat (int (getParameterSize (obj s)) - 1)) epsilon)
                 (int (getParameterSize (obj s))) 0 \<le> int (getParameterSize (obj s))"
    by (rule skip_small_bounds) simp
  from assms e b show ?thesis
    by (simp add: solve_def Let_def)
qed

lemma map2_dmul_ones: "length row = n \<Longrightarrow> map2 dmul row (replicate n (Fin 1)) = row"
  by (rule nth_equalityI) simp_all

lemma mul_diagonal_ones:
  "finite_mat n V \<Longrightarrow> mul_diagonal V (replicate n (Fin 1)) = V"
  by (auto simp: mul_diagonal_def finite_mat_def finite_vec_def list_all_iff map2_dmul_ones
      intro!: map_idI)

lemma rightCols_all: "finite_mat n V \<Longrightarrow> rightCols n V = V"
  by (auto simp: rightCols_def finite_mat_def finite_vec_def list_all_iff intro!: map_idI)

lemma solve_eigen_identity:
  assumes "\<not> useCholesky (ctrl s)" and "0 < n" and "getParameterSize (obj s) = n"
    and "eigh lib (identity_mat n) = (replicate n (Fin 1), V)"
    and "finite_mat n V" and "mul_adjoint V V = identity_mat n" and "finite_vec n (g s)"
  shows "\<exists>s'. solve lib (identity_mat n) s = Some s' \<and> rank s' = int n \<and> h s' = vneg (g s)"
proof -
  have t: "dmul (replicate n (Fin 1) ! nat (int n - 1)) epsilon = Fin (1 / 2 ^ 52)"
    using assms(2) by (simp add: epsilon_def)
  have k: "skip_small (replicate n (Fin 1)) (Fin (1 / 2 ^ 52)) (int n) 0 = 0"
    using assms(2) by (subst skip_small.simps) simp
  have d: "map (ddiv (Fin 1)) (tail n (replicate n (Fin 1))) = replicate n (Fin 1)"
    by (simp add: tail_def)
  have v: "finite_vec n (vneg (g s))"
    using assms(7) by (auto simp: finite_vec_def vneg_def list_all_iff isfinite_iff)
  have "vneg (g s) = mat_vec (identity_mat n) (vneg (g s))"
    by (rule mat_vec_identity [OF v, symmetric])
  with assms t k d show ?thesis
    by (simp add: solve_def Let_def rightCols_all mul_diagonal_ones)
qed


lemma eigen_start_fields:
  "\<not> useCholesky (ctrl eigen_start)" "getParameterSize (obj eigen_start) = 1"
  "g eigen_start = [Fin 1]"
  by (simp_all add: eigen_start_def init_objLinear obj_simps)

text \<open>
  C8. With \<open>useCholesky\<close> false and at least one parameter, \<open>solve\<close> returns with
  \<open>0 \<le> rank \<le> n\<close>, whatever the matrix and the eigenvalues the decomposition gives
  for it. For the identity matrix, whose eigenvalues are all 1 and whose matrix \<open>V\<close> of
  eigenvectors is orthogonal, it reports \<open>rank = n\<close> and returns \<open>h = -g\<close> (for a
  finite \<open>g\<close>).
\<close>

theorem eigen_solve_rank:
  "(\<not> useCholesky (ctrl s) \<and> 0 < getParameterSize (obj s) \<and>
    getParameterSize (obj s) \<le> length (fst (eigh lib M)) \<longrightarrow>
      (\<exists>s'. solve lib M s = Some s' \<and> 0 \<le> rank s' \<and>
            rank s' \<le> int (getParameterSize (obj s)))) \<and>
   (\<not> useCholesky (ctrl s) \<and> 0 < n \<and> getParameterSize (obj s) = n \<and>
    eigh lib (identity_mat n) = (replicate n (Fin 1), V) \<and> finite_mat n V \<and>
    mul_adjoint V V = identity_mat n \<and> finite_vec n (g s) \<longrightarrow>
      (\<exists>s'. solve lib (identity_mat n) s = Some s' \<and> rank s' = int n \<and> h s' = vneg (g s)))"
  using solve_eigen_rank [of s lib M] solve_eigen_identity [of s n lib V] by blast

theorem eigen_solve_rank_witness:
  "\<not> useCholesky (ctrl eigen_start) \<and> 0 < getParameterSize (obj eigen_start) \<and>
   getParameterSize (obj eigen_start) \<le> length (fst (eigh lib1 [[Fin 5]])) \<and>
   (\<exists>s'. solve lib1 [[Fin 5]] eigen_start = Some s' \<and> 0 \<le> rank s' \<and> rank s' \<le> 1) \<and>
   eigh lib1 (identity_mat 1) = (replicate 1 (Fin 1), [[Fin 1]]) \<and>
   finite_mat 1 [[Fin 1]] \<and> mul_adjoint [[Fin 1]] [[Fin 1]] = identity_mat 1 \<and>
   finite_vec 1 (g eigen_start) \<and>
   (\<exists>s'. solve lib1 (identity_mat 1) eigen_start = Some s' \<and> rank s' = 1 \<and>
         h s' = [Fin (- 1)])"
proof -
  have a: "getParameterSize (obj eigen_start) \<le> length (fst (eigh lib1 [[Fin 5]]))"
    by (simp add: eigen_start_fields lib1_simps)
  have b: "eigh lib1 (identity_mat 1) = (replicate 1 (Fin 1), [[Fin 1]])"
    by (simp add: lib1_simps identity_mat_def upt1)
  have c: "finite_mat 1 [[Fin 1]]" by (simp add: finite_mat_def finite_vec_def)
  have d: "mul_adjoint [[Fin 1]] [[Fin 1]] = identity_mat 1"
    by (simp add: mul_adjoint_def identity_mat_def la_defs upt1)
  have e: "finite_vec 1 (g eigen_start)" by (simp add: eigen_start_fields finite_vec_def)
  from eigen_solve_rank [of eigen_start lib1 "[[Fin 5]]" 1 "[[Fin 1]]"] a b c d e
  show ?thesis
    by (simp add: eigen_start_fields vneg_def)
qed

section \<open>The storage of A and B\<close>


































end
